theory Spec2Isabelle
  imports Complex_Main
begin

section \<open>Tensors and broadcasting\<close>

text \<open>
  The module \<^verbatim>\<open>diffusion/diffusion_utils.py\<close> consists of four numeric functions over
  tensors. A tensor is modelled by its shape and its elements in row-major order.
  The functions are modelled twice. First with real numbers as elements: this model
  identifies the formulas the code evaluates, in exact arithmetic. Then with
  floating-point elements (finite values, infinities and NaN, with rounding and
  overflow): this model is used wherever a claim is about the values the program
  returns.
\<close>

datatype error = AssertionError | RuntimeError | TypeError | OverflowError

record 'a tensor =
  shape :: "nat list"
  data :: "'a list"

definition numel :: "nat list \<Rightarrow> nat" where
  "numel s = prod_list s"

definition wf_tensor :: "'a tensor \<Rightarrow> bool" where
  "wf_tensor t \<longleftrightarrow> length (data t) = numel (shape t)"

text \<open>
  Broadcasting as the tensor library does it: the two shapes are aligned at their
  last dimension; two aligned sizes must be equal or one of them must be 1, and a
  missing dimension counts as 1. The functions below work on reversed shapes
  (innermost dimension first).
\<close>

fun broadcast_rev :: "nat list \<Rightarrow> nat list \<Rightarrow> nat list option" where
  "broadcast_rev [] es = Some es"
| "broadcast_rev (d # ds) [] = Some (d # ds)"
| "broadcast_rev (d # ds) (e # es) =
     (if d = e \<or> d = 1 \<or> e = 1
      then map_option ((#) (if d = 1 then e else d)) (broadcast_rev ds es)
      else None)"

definition broadcast_shapes :: "nat list \<Rightarrow> nat list \<Rightarrow> nat list option" where
  "broadcast_shapes a b = map_option rev (broadcast_rev (rev a) (rev b))"

text \<open>
  \<open>src_offset ds es k\<close> is the row-major offset, in a tensor of (reversed) shape
  \<open>ds\<close>, of the element that an expansion to the (reversed) shape \<open>es\<close> shows at
  offset \<open>k\<close>: a dimension of size 1 is read at index 0 whatever the index asked.
\<close>

fun src_offset :: "nat list \<Rightarrow> nat list \<Rightarrow> nat \<Rightarrow> nat" where
  "src_offset [] es k = 0"
| "src_offset (d # ds) [] k = 0"
| "src_offset (d # ds) (e # es) k =
     (if d = 1 then 0 else k mod e) + d * src_offset ds es (k div e)"

definition expand_to :: "'a tensor \<Rightarrow> nat list \<Rightarrow> 'a list" where
  "expand_to t s =
     map (\<lambda>k. data t ! src_offset (rev (shape t)) (rev s) k) [0..<numel s]"

definition rbind :: "error + 'a \<Rightarrow> ('a \<Rightarrow> error + 'b) \<Rightarrow> error + 'b" where
  "rbind m f = (case m of Inl e \<Rightarrow> Inl e | Inr v \<Rightarrow> f v)"

text \<open>An elementwise binary operation of two tensors, with broadcasting.\<close>

definition tensor_binop ::
  "('a \<Rightarrow> 'b \<Rightarrow> 'c) \<Rightarrow> 'a tensor \<Rightarrow> 'b tensor \<Rightarrow> error + 'c tensor" where
  "tensor_binop f a b =
     (case broadcast_shapes (shape a) (shape b) of
        None \<Rightarrow> Inl RuntimeError
      | Some s \<Rightarrow> Inr \<lparr>shape = s, data = map2 f (expand_to a s) (expand_to b s)\<rparr>)"

text \<open>An elementwise unary operation, or an operation with a Python scalar.\<close>

definition tensor_map :: "('a \<Rightarrow> 'b) \<Rightarrow> 'a tensor \<Rightarrow> 'b tensor" where
  "tensor_map f t = \<lparr>shape = shape t, data = map f (data t)\<rparr>"

section \<open>The approximate standard normal CDF\<close>

text \<open>
  \<^verbatim>\<open>0.5 * (1.0 + th.tanh(np.sqrt(2.0 / np.pi) * (x + 0.044715 * th.pow(x, 3))))\<close>
\<close>

definition approx_standard_normal_cdf :: "real tensor \<Rightarrow> error + real tensor" where
  "approx_standard_normal_cdf x =
     rbind (tensor_binop (+) x
              (tensor_map (\<lambda>v. 0.044715 * v) (tensor_map (\<lambda>v. v ^ 3) x)))
       (\<lambda>s. Inr (tensor_map (\<lambda>v. 0.5 * v)
                   (tensor_map (\<lambda>v. 1.0 + v)
                     (tensor_map tanh
                       (tensor_map (\<lambda>v. sqrt (2.0 / pi) * v) s)))))"

text \<open>The formula of the specification, for one element.\<close>

definition cdf_formula :: "real \<Rightarrow> real" where
  "cdf_formula v = 0.5 * (1 + tanh (sqrt (2 / pi) * (v + 0.044715 * v ^ 3)))"

section \<open>Arguments that are Python floats or tensors\<close>

datatype pyval = PyFloat real | PyTensor "real tensor"

fun is_tensor :: "pyval \<Rightarrow> bool" where
  "is_tensor (PyTensor t) = True"
| "is_tensor (PyFloat v) = False"

text \<open>The shape an argument takes part in broadcasting with: a scalar has no dimension.\<close>

fun pv_shape :: "pyval \<Rightarrow> nat list" where
  "pv_shape (PyTensor t) = shape t"
| "pv_shape (PyFloat v) = []"

fun pv_wf :: "pyval \<Rightarrow> bool" where
  "pv_wf (PyTensor t) = wf_tensor t"
| "pv_wf (PyFloat v) = True"

text \<open>Arithmetic of two values: floats among themselves, a float with every element of
  a tensor, two tensors with broadcasting.\<close>

fun pv_binop :: "(real \<Rightarrow> real \<Rightarrow> real) \<Rightarrow> pyval \<Rightarrow> pyval \<Rightarrow> error + pyval" where
  "pv_binop f (PyFloat a) (PyFloat b) = Inr (PyFloat (f a b))"
| "pv_binop f (PyFloat a) (PyTensor t) = Inr (PyTensor (tensor_map (f a) t))"
| "pv_binop f (PyTensor t) (PyFloat b) = Inr (PyTensor (tensor_map (\<lambda>v. f v b) t))"
| "pv_binop f (PyTensor s) (PyTensor t) =
     rbind (tensor_binop f s t) (\<lambda>r. Inr (PyTensor r))"

fun pv_map :: "(real \<Rightarrow> real) \<Rightarrow> pyval \<Rightarrow> pyval" where
  "pv_map f (PyFloat a) = PyFloat (f a)"
| "pv_map f (PyTensor t) = PyTensor (tensor_map f t)"

text \<open>\<^verbatim>\<open>th.exp\<close> accepts tensors only.\<close>

fun th_exp :: "pyval \<Rightarrow> error + pyval" where
  "th_exp (PyTensor t) = Inr (PyTensor (tensor_map exp t))"
| "th_exp (PyFloat v) = Inl TypeError"

section \<open>KL divergence of two Gaussians\<close>

text \<open>The loop that looks for the first tensor among the arguments.\<close>

fun find_tensor :: "pyval list \<Rightarrow> real tensor option" where
  "find_tensor [] = None"
| "find_tensor (PyTensor t # objs) = Some t"
| "find_tensor (PyFloat v # objs) = find_tensor objs"

text \<open>
  \<^verbatim>\<open>x if isinstance(x, th.Tensor) else th.tensor(x).to(tensor)\<close>: a float becomes a tensor
  without dimensions; the tensor found above only gives it its element type and device.
\<close>

fun force_tensor :: "real tensor \<Rightarrow> pyval \<Rightarrow> pyval" where
  "force_tensor tensor (PyTensor t) = PyTensor t"
| "force_tensor tensor (PyFloat v) = PyTensor \<lparr>shape = [], data = [v]\<rparr>"

definition normal_kl :: "pyval \<Rightarrow> pyval \<Rightarrow> pyval \<Rightarrow> pyval \<Rightarrow> error + pyval" where
  "normal_kl mean1 logvar1' mean2 logvar2' =
     (case find_tensor [mean1, logvar1', mean2, logvar2'] of
        None \<Rightarrow> Inl AssertionError
      | Some tensor \<Rightarrow>
          let logvar1 = force_tensor tensor logvar1';
              logvar2 = force_tensor tensor logvar2'
          in
          rbind (pv_binop (+) (PyFloat (- 1.0)) logvar2) (\<lambda>a.
          rbind (pv_binop (-) a logvar1) (\<lambda>b.
          rbind (pv_binop (-) logvar1 logvar2) (\<lambda>d.
          rbind (th_exp d) (\<lambda>c.
          rbind (pv_binop (+) b c) (\<lambda>e.
          rbind (pv_binop (-) mean1 mean2) (\<lambda>m.
          rbind (th_exp (pv_map uminus logvar2)) (\<lambda>f.
          rbind (pv_binop (*) (pv_map (\<lambda>v. v ^ 2) m) f) (\<lambda>g.
          rbind (pv_binop (+) e g) (\<lambda>h.
          pv_binop (*) (PyFloat 0.5) h))))))))))"

text \<open>The closed form of the specification, for one element.\<close>

definition kl_formula :: "real \<Rightarrow> real \<Rightarrow> real \<Rightarrow> real \<Rightarrow> real" where
  "kl_formula m1 lv1 m2 lv2 =
     0.5 * (- 1 + lv2 - lv1 + exp (lv1 - lv2) + (m1 - m2) ^ 2 * exp (- lv2))"

text \<open>The element an argument contributes at offset \<open>k\<close> of a result of shape \<open>s\<close>.\<close>

fun pv_at :: "pyval \<Rightarrow> nat list \<Rightarrow> nat \<Rightarrow> real" where
  "pv_at (PyFloat v) s k = v"
| "pv_at (PyTensor t) s k = data t ! src_offset (rev (shape t)) (rev s) k"

text \<open>The common broadcast shape of four shapes, taken in the order of the arguments.\<close>

definition broadcast4 ::
  "nat list \<Rightarrow> nat list \<Rightarrow> nat list \<Rightarrow> nat list \<Rightarrow> nat list option" where
  "broadcast4 a b c d =
     Option.bind (broadcast_shapes a b) (\<lambda>ab.
     Option.bind (broadcast_shapes ab c) (\<lambda>abc. broadcast_shapes abc d))"

section \<open>Continuous Gaussian log-likelihood\<close>

definition zeros_like :: "real tensor \<Rightarrow> real tensor" where
  "zeros_like x = \<lparr>shape = shape x, data = replicate (numel (shape x)) 0\<rparr>"

definition ones_like :: "real tensor \<Rightarrow> real tensor" where
  "ones_like x = \<lparr>shape = shape x, data = replicate (numel (shape x)) 1\<rparr>"

text \<open>
  The method \<^verbatim>\<open>log_prob\<close> of the library's normal distribution with tensor parameters
  \<^verbatim>\<open>loc\<close> and \<^verbatim>\<open>scale\<close>:
  \<^verbatim>\<open>var = scale ** 2; log_scale = scale.log()\<close>, then
  \<^verbatim>\<open>-((value - loc) ** 2) / (2 * var) - log_scale - math.log(math.sqrt(2 * math.pi))\<close>.
\<close>

definition normal_log_prob ::
  "real tensor \<Rightarrow> real tensor \<Rightarrow> real tensor \<Rightarrow> error + real tensor" where
  "normal_log_prob loc scale value =
     (let var = tensor_map (\<lambda>v. v ^ 2) scale;
          log_scale = tensor_map ln scale
      in
      rbind (tensor_binop (-) value loc) (\<lambda>diff.
      rbind (tensor_binop (/) (tensor_map uminus (tensor_map (\<lambda>v. v ^ 2) diff))
               (tensor_map (\<lambda>v. 2 * v) var)) (\<lambda>q.
      rbind (tensor_binop (-) q log_scale) (\<lambda>r.
      Inr (tensor_map (\<lambda>v. v - ln (sqrt (2 * pi))) r)))))"

definition continuous_gaussian_log_likelihood ::
  "real tensor \<Rightarrow> real tensor \<Rightarrow> real tensor \<Rightarrow> error + real tensor" where
  "continuous_gaussian_log_likelihood x means log_scales =
     rbind (tensor_binop (-) x means) (\<lambda>centered_x.
     let inv_stdv = tensor_map exp (tensor_map uminus log_scales) in
     rbind (tensor_binop (*) centered_x inv_stdv) (\<lambda>normalized_x.
     normal_log_prob (zeros_like x) (ones_like x) normalized_x))"

text \<open>The density the specification gives, for one element.\<close>

definition gaussian_log_density :: "real \<Rightarrow> real \<Rightarrow> real \<Rightarrow> real" where
  "gaussian_log_density x m ls =
     (let z = (x - m) * exp (- ls) in - 0.5 * z ^ 2 - 0.5 * ln (2 * pi) - ls)"

section \<open>Discretized Gaussian log-likelihood\<close>

definition clamp_min :: "real \<Rightarrow> real tensor \<Rightarrow> real tensor" where
  "clamp_min lo t = tensor_map (\<lambda>v. max v lo) t"

text \<open>\<^verbatim>\<open>th.where(cond, a, b)\<close> broadcasts its three arguments.\<close>

definition th_where :: "bool tensor \<Rightarrow> 'a tensor \<Rightarrow> 'a tensor \<Rightarrow> error + 'a tensor" where
  "th_where cond a b =
     rbind (tensor_binop Pair a b) (\<lambda>ab.
     tensor_binop (\<lambda>c (u, v). if c then u else v) cond ab)"

definition discretized_gaussian_log_likelihood ::
  "real tensor \<Rightarrow> real tensor \<Rightarrow> real tensor \<Rightarrow> error + real tensor" where
  "discretized_gaussian_log_likelihood x means log_scales =
     (if \<not> (shape x = shape means \<and> shape means = shape log_scales)
      then Inl AssertionError
      else
        rbind (tensor_binop (-) x means) (\<lambda>centered_x.
        let inv_stdv = tensor_map exp (tensor_map uminus log_scales) in
        rbind (tensor_binop (*) inv_stdv
                 (tensor_map (\<lambda>v. v + 1.0 / 255.0) centered_x)) (\<lambda>plus_in.
        rbind (approx_standard_normal_cdf plus_in) (\<lambda>cdf_plus.
        rbind (tensor_binop (*) inv_stdv
                 (tensor_map (\<lambda>v. v - 1.0 / 255.0) centered_x)) (\<lambda>min_in.
        rbind (approx_standard_normal_cdf min_in) (\<lambda>cdf_min.
        let log_cdf_plus = tensor_map ln (clamp_min (1 / 10 ^ 12) cdf_plus);
            log_one_minus_cdf_min =
              tensor_map ln (clamp_min (1 / 10 ^ 12) (tensor_map (\<lambda>v. 1.0 - v) cdf_min))
        in
        rbind (tensor_binop (-) cdf_plus cdf_min) (\<lambda>cdf_delta.
        rbind (th_where (tensor_map (\<lambda>v. v > 0.999) x) log_one_minus_cdf_min
                 (tensor_map ln (clamp_min (1 / 10 ^ 12) cdf_delta))) (\<lambda>inner.
        rbind (th_where (tensor_map (\<lambda>v. v < - 0.999) x) log_cdf_plus inner) (\<lambda>log_probs.
        if shape log_probs = shape x then Inr log_probs else Inl AssertionError)))))))))"

text \<open>The value the specification gives for one element.\<close>

definition dgll_formula :: "real \<Rightarrow> real \<Rightarrow> real \<Rightarrow> real" where
  "dgll_formula x m ls =
     (let cdf_plus = cdf_formula (exp (- ls) * (x - m + 1 / 255));
          cdf_min = cdf_formula (exp (- ls) * (x - m - 1 / 255))
      in if x < - 0.999 then ln (max cdf_plus (1 / 10 ^ 12))
         else if x > 0.999 then ln (max (1 - cdf_min) (1 / 10 ^ 12))
         else ln (max (cdf_plus - cdf_min) (1 / 10 ^ 12)))"

section \<open>Floating-point elements\<close>

text \<open>
  The elements of a tensor, and Python's own floats, are floating-point numbers: finite
  values, the two infinities and NaN. (The sign of zero plays no part in the functions
  of this module and is left out.)
\<close>

datatype fval = Fin real | PInf | NInf | NaN

text \<open>
  What the platform fixes about a floating-point type: how a real result is rounded
  to a representable number, the largest finite number, and what the library's
  exponential, hyperbolic tangent and logarithm return at a finite argument.
\<close>

record arith =
  rnd :: "real \<Rightarrow> real"
  fmax :: real
  lib_exp :: "real \<Rightarrow> real"
  lib_tanh :: "real \<Rightarrow> real"
  lib_log :: "real \<Rightarrow> real"

text \<open>The result of an arithmetic operation whose exact value is \<open>x\<close>: rounded, and an
  infinity when the rounded value is out of range.\<close>

definition fl :: "arith \<Rightarrow> real \<Rightarrow> fval" where
  "fl A x = (if fmax A < rnd A x then PInf
             else if rnd A x < - fmax A then NInf
             else Fin (rnd A x))"

fun fneg :: "fval \<Rightarrow> fval" where
  "fneg (Fin x) = Fin (- x)"
| "fneg PInf = NInf"
| "fneg NInf = PInf"
| "fneg NaN = NaN"

fun fadd :: "arith \<Rightarrow> fval \<Rightarrow> fval \<Rightarrow> fval" where
  "fadd A (Fin x) (Fin y) = fl A (x + y)"
| "fadd A (Fin x) PInf = PInf"
| "fadd A (Fin x) NInf = NInf"
| "fadd A PInf (Fin y) = PInf"
| "fadd A PInf PInf = PInf"
| "fadd A PInf NInf = NaN"
| "fadd A NInf (Fin y) = NInf"
| "fadd A NInf PInf = NaN"
| "fadd A NInf NInf = NInf"
| "fadd A NaN b = NaN"
| "fadd A a NaN = NaN"

definition fsub :: "arith \<Rightarrow> fval \<Rightarrow> fval \<Rightarrow> fval" where
  "fsub A a b = fadd A a (fneg b)"

text \<open>Zero times an infinity is NaN.\<close>

fun fmul :: "arith \<Rightarrow> fval \<Rightarrow> fval \<Rightarrow> fval" where
  "fmul A (Fin x) (Fin y) = fl A (x * y)"
| "fmul A (Fin x) PInf = (if x = 0 then NaN else if 0 < x then PInf else NInf)"
| "fmul A (Fin x) NInf = (if x = 0 then NaN else if 0 < x then NInf else PInf)"
| "fmul A PInf (Fin y) = (if y = 0 then NaN else if 0 < y then PInf else NInf)"
| "fmul A NInf (Fin y) = (if y = 0 then NaN else if 0 < y then NInf else PInf)"
| "fmul A PInf PInf = PInf"
| "fmul A PInf NInf = NInf"
| "fmul A NInf PInf = NInf"
| "fmul A NInf NInf = PInf"
| "fmul A NaN b = NaN"
| "fmul A a NaN = NaN"

text \<open>The comparison \<^verbatim>\<open><\<close>: false whenever an operand is NaN.\<close>

fun flt :: "fval \<Rightarrow> fval \<Rightarrow> bool" where
  "flt (Fin x) (Fin y) = (x < y)"
| "flt (Fin x) PInf = True"
| "flt (Fin x) NInf = False"
| "flt PInf b = False"
| "flt NInf (Fin y) = True"
| "flt NInf PInf = True"
| "flt NInf NInf = False"
| "flt NaN b = False"
| "flt a NaN = False"

text \<open>\<^verbatim>\<open>th.exp\<close>, \<^verbatim>\<open>th.tanh\<close> and \<^verbatim>\<open>th.log\<close> on one element.\<close>

fun fexp :: "arith \<Rightarrow> fval \<Rightarrow> fval" where
  "fexp A (Fin x) = (if fmax A < lib_exp A x then PInf else Fin (lib_exp A x))"
| "fexp A PInf = PInf"
| "fexp A NInf = Fin 0"
| "fexp A NaN = NaN"

fun ftanh :: "arith \<Rightarrow> fval \<Rightarrow> fval" where
  "ftanh A (Fin x) = Fin (lib_tanh A x)"
| "ftanh A PInf = Fin 1"
| "ftanh A NInf = Fin (- 1)"
| "ftanh A NaN = NaN"

fun flog :: "arith \<Rightarrow> fval \<Rightarrow> fval" where
  "flog A (Fin x) = (if 0 < x then Fin (lib_log A x) else if x = 0 then NInf else NaN)"
| "flog A PInf = PInf"
| "flog A NInf = NaN"
| "flog A NaN = NaN"

text \<open>\<^verbatim>\<open>clamp(min=lo)\<close> on one element: NaN stays NaN.\<close>

fun fclamp_min :: "fval \<Rightarrow> fval \<Rightarrow> fval" where
  "fclamp_min lo NaN = NaN"
| "fclamp_min lo v = (if flt v lo then lo else v)"

text \<open>A Python float that meets a tensor is converted to the tensor's element type.\<close>

fun to_elem :: "arith \<Rightarrow> fval \<Rightarrow> fval" where
  "to_elem A (Fin x) = fl A x"
| "to_elem A v = v"

text \<open>A decimal literal of the source, and the two constants the source computes with
  Python floats: \<^verbatim>\<open>np.sqrt(2.0 / np.pi)\<close> and \<^verbatim>\<open>1.0 / 255.0\<close>.\<close>

definition py_lit :: "arith \<Rightarrow> real \<Rightarrow> fval" where
  "py_lit py c = Fin (rnd py c)"

definition sqrt_2_over_pi :: "arith \<Rightarrow> fval" where
  "sqrt_2_over_pi py = Fin (rnd py (sqrt (rnd py (rnd py 2 / rnd py pi))))"

definition one_over_255 :: "arith \<Rightarrow> fval" where
  "one_over_255 py = Fin (rnd py (rnd py 1 / rnd py 255))"

text \<open>
  The functions of the module over floating-point elements. \<open>py\<close> is the arithmetic
  of Python's floats, \<open>th\<close> the arithmetic of the tensors' element type. The tensor
  library evaluates \<^verbatim>\<open>th.pow(x, 3)\<close> as \<open>x * x * x\<close> and \<^verbatim>\<open>t ** 2\<close> as \<open>t * t\<close>.
\<close>

definition approx_standard_normal_cdf_fp ::
  "arith \<Rightarrow> arith \<Rightarrow> fval tensor \<Rightarrow> error + fval tensor" where
  "approx_standard_normal_cdf_fp py th x =
     rbind (tensor_binop (fadd th) x
              (tensor_map (fmul th (to_elem th (py_lit py 0.044715)))
                 (tensor_map (\<lambda>v. fmul th (fmul th v v) v) x)))
       (\<lambda>s. Inr (tensor_map (fmul th (to_elem th (py_lit py 0.5)))
                   (tensor_map (fadd th (to_elem th (py_lit py 1.0)))
                     (tensor_map (ftanh th)
                       (tensor_map (fmul th (to_elem th (sqrt_2_over_pi py))) s)))))"

definition discretized_gaussian_log_likelihood_fp ::
  "arith \<Rightarrow> arith \<Rightarrow> fval tensor \<Rightarrow> fval tensor \<Rightarrow> fval tensor \<Rightarrow> error + fval tensor" where
  "discretized_gaussian_log_likelihood_fp py th x means log_scales =
     (if \<not> (shape x = shape means \<and> shape means = shape log_scales)
      then Inl AssertionError
      else
        rbind (tensor_binop (fsub th) x means) (\<lambda>centered_x.
        let inv_stdv = tensor_map (fexp th) (tensor_map fneg log_scales) in
        rbind (tensor_binop (fmul th) inv_stdv
                 (tensor_map (\<lambda>v. fadd th v (to_elem th (one_over_255 py))) centered_x))
          (\<lambda>plus_in.
        rbind (approx_standard_normal_cdf_fp py th plus_in) (\<lambda>cdf_plus.
        rbind (tensor_binop (fmul th) inv_stdv
                 (tensor_map (\<lambda>v. fsub th v (to_elem th (one_over_255 py))) centered_x))
          (\<lambda>min_in.
        rbind (approx_standard_normal_cdf_fp py th min_in) (\<lambda>cdf_min.
        let floor12 = to_elem th (py_lit py (1 / 10 ^ 12));
            log_cdf_plus = tensor_map (flog th) (tensor_map (fclamp_min floor12) cdf_plus);
            log_one_minus_cdf_min =
              tensor_map (flog th)
                (tensor_map (fclamp_min floor12)
                   (tensor_map (fsub th (to_elem th (py_lit py 1.0))) cdf_min))
        in
        rbind (tensor_binop (fsub th) cdf_plus cdf_min) (\<lambda>cdf_delta.
        rbind (th_where (tensor_map (\<lambda>v. flt (to_elem th (py_lit py 0.999)) v) x)
                 log_one_minus_cdf_min
                 (tensor_map (flog th) (tensor_map (fclamp_min floor12) cdf_delta)))
          (\<lambda>inner.
        rbind (th_where (tensor_map (\<lambda>v. flt v (to_elem th (fneg (py_lit py 0.999)))) x)
                 log_cdf_plus inner) (\<lambda>log_probs.
        if shape log_probs = shape x then Inr log_probs else Inl AssertionError)))))))))"

datatype fpval = FpFloat fval | FpTensor "fval tensor"

fun fp_binop ::
  "arith \<Rightarrow> arith \<Rightarrow> (arith \<Rightarrow> fval \<Rightarrow> fval \<Rightarrow> fval) \<Rightarrow> fpval \<Rightarrow> fpval \<Rightarrow> error + fpval" where
  "fp_binop py th f (FpFloat a) (FpFloat b) = Inr (FpFloat (f py a b))"
| "fp_binop py th f (FpFloat a) (FpTensor t) = Inr (FpTensor (tensor_map (f th (to_elem th a)) t))"
| "fp_binop py th f (FpTensor t) (FpFloat b) =
     Inr (FpTensor (tensor_map (\<lambda>v. f th v (to_elem th b)) t))"
| "fp_binop py th f (FpTensor s) (FpTensor t) =
     rbind (tensor_binop (f th) s t) (\<lambda>r. Inr (FpTensor r))"

fun fp_neg :: "fpval \<Rightarrow> fpval" where
  "fp_neg (FpFloat a) = FpFloat (fneg a)"
| "fp_neg (FpTensor t) = FpTensor (tensor_map fneg t)"

text \<open>\<^verbatim>\<open>** 2\<close>: on a Python float it raises \<^verbatim>\<open>OverflowError\<close> when the result is out of
  range.\<close>

fun fp_pow2 :: "arith \<Rightarrow> arith \<Rightarrow> fpval \<Rightarrow> error + fpval" where
  "fp_pow2 py th (FpFloat (Fin x)) =
     (if fmax py < rnd py (x * x) then Inl OverflowError
      else Inr (FpFloat (Fin (rnd py (x * x)))))"
| "fp_pow2 py th (FpFloat PInf) = Inr (FpFloat PInf)"
| "fp_pow2 py th (FpFloat NInf) = Inr (FpFloat PInf)"
| "fp_pow2 py th (FpFloat NaN) = Inr (FpFloat NaN)"
| "fp_pow2 py th (FpTensor t) = Inr (FpTensor (tensor_map (\<lambda>v. fmul th v v) t))"

fun th_exp_fp :: "arith \<Rightarrow> fpval \<Rightarrow> error + fpval" where
  "th_exp_fp th (FpTensor t) = Inr (FpTensor (tensor_map (fexp th) t))"
| "th_exp_fp th (FpFloat v) = Inl TypeError"

fun find_tensor_fp :: "fpval list \<Rightarrow> fval tensor option" where
  "find_tensor_fp [] = None"
| "find_tensor_fp (FpTensor t # objs) = Some t"
| "find_tensor_fp (FpFloat v # objs) = find_tensor_fp objs"

text \<open>
  \<^verbatim>\<open>th.tensor(x).to(tensor)\<close>: the float becomes a tensor of the library's default
  element type (arithmetic \<open>df\<close>) and is then converted to the element type of the
  tensor found.
\<close>

fun force_tensor_fp :: "arith \<Rightarrow> arith \<Rightarrow> fval tensor \<Rightarrow> fpval \<Rightarrow> fpval" where
  "force_tensor_fp df th tensor (FpTensor t) = FpTensor t"
| "force_tensor_fp df th tensor (FpFloat v) =
     FpTensor \<lparr>shape = [], data = [to_elem th (to_elem df v)]\<rparr>"

definition normal_kl_fp ::
  "arith \<Rightarrow> arith \<Rightarrow> arith \<Rightarrow> fpval \<Rightarrow> fpval \<Rightarrow> fpval \<Rightarrow> fpval \<Rightarrow> error + fpval" where
  "normal_kl_fp py df th mean1 logvar1' mean2 logvar2' =
     (case find_tensor_fp [mean1, logvar1', mean2, logvar2'] of
        None \<Rightarrow> Inl AssertionError
      | Some tensor \<Rightarrow>
          let logvar1 = force_tensor_fp df th tensor logvar1';
              logvar2 = force_tensor_fp df th tensor logvar2'
          in
          rbind (fp_binop py th fadd (FpFloat (fneg (py_lit py 1.0))) logvar2) (\<lambda>a.
          rbind (fp_binop py th fsub a logvar1) (\<lambda>b.
          rbind (fp_binop py th fsub logvar1 logvar2) (\<lambda>d.
          rbind (th_exp_fp th d) (\<lambda>c.
          rbind (fp_binop py th fadd b c) (\<lambda>e.
          rbind (fp_binop py th fsub mean1 mean2) (\<lambda>m.
          rbind (fp_pow2 py th m) (\<lambda>m2.
          rbind (th_exp_fp th (fp_neg logvar2)) (\<lambda>f.
          rbind (fp_binop py th fmul m2 f) (\<lambda>g.
          rbind (fp_binop py th fadd e g) (\<lambda>h.
          fp_binop py th fmul (FpFloat (py_lit py 0.5)) h)))))))))))"

section \<open>Notions used in the statements and proofs\<close>

text \<open>\<open>expands_to ds es\<close>: a tensor of (reversed) shape \<open>ds\<close> can be expanded to the
  (reversed) shape \<open>es\<close>.\<close>

fun expands_to :: "nat list \<Rightarrow> nat list \<Rightarrow> bool" where
  "expands_to [] es = True"
| "expands_to (d # ds) [] = False"
| "expands_to (d # ds) (e # es) = ((d = e \<or> d = 1) \<and> expands_to ds es)"

text \<open>\<open>elems_at v s g\<close>: the value \<open>v\<close> is well formed, can be expanded to the shape \<open>s\<close>,
  and shows there the element \<open>g k\<close> at every offset \<open>k\<close>.\<close>

definition elems_at :: "pyval \<Rightarrow> nat list \<Rightarrow> (nat \<Rightarrow> real) \<Rightarrow> bool" where
  "elems_at v s g \<longleftrightarrow>
     pv_wf v \<and> expands_to (rev (pv_shape v)) (rev s) \<and> (\<forall>k<numel s. pv_at v s k = g k)"

text \<open>\<open>tab s g\<close>: the tensor of shape \<open>s\<close> with the element \<open>g k\<close> at offset \<open>k\<close>.\<close>

definition tab :: "nat list \<Rightarrow> (nat \<Rightarrow> 'a) \<Rightarrow> 'a tensor" where
  "tab s g = \<lparr>shape = s, data = map g [0..<numel s]\<rparr>"

text \<open>What the floating-point functions compute for one element.\<close>

definition cdf_elem :: "arith \<Rightarrow> arith \<Rightarrow> fval \<Rightarrow> fval" where
  "cdf_elem py th v =
     fmul th (to_elem th (py_lit py 0.5))
       (fadd th (to_elem th (py_lit py 1.0))
          (ftanh th
             (fmul th (to_elem th (sqrt_2_over_pi py))
                (fadd th v
                   (fmul th (to_elem th (py_lit py 0.044715)) (fmul th (fmul th v v) v))))))"

definition floor12 :: "arith \<Rightarrow> arith \<Rightarrow> fval" where
  "floor12 py th = to_elem th (py_lit py (1 / 10 ^ 12))"

definition dgll_elem :: "arith \<Rightarrow> arith \<Rightarrow> fval \<Rightarrow> fval \<Rightarrow> fval \<Rightarrow> fval" where
  "dgll_elem py th x m l =
     (let centered = fsub th x m;
          inv_stdv = fexp th (fneg l);
          cdf_plus = cdf_elem py th
                       (fmul th inv_stdv (fadd th centered (to_elem th (one_over_255 py))));
          cdf_min = cdf_elem py th
                      (fmul th inv_stdv (fsub th centered (to_elem th (one_over_255 py))))
      in if flt x (to_elem th (fneg (py_lit py 0.999)))
         then flog th (fclamp_min (floor12 py th) cdf_plus)
         else if flt (to_elem th (py_lit py 0.999)) x
         then flog th (fclamp_min (floor12 py th)
                         (fsub th (to_elem th (py_lit py 1.0)) cdf_min))
         else flog th (fclamp_min (floor12 py th) (fsub th cdf_plus cdf_min)))"

text \<open>
  What the theorems assume of an arithmetic: rounding is monotone and odd and keeps
  the powers of two from \<open>2\<^sup>-\<^sup>4\<^sup>0\<close> to \<open>2\<^sup>4\<^sup>0\<close>; the range reaches 4; the library's \<open>tanh\<close> stays
  within \<open>[-1, 1]\<close>, its \<open>log\<close> is monotone with \<open>log 1 = 0\<close>, and its \<open>exp\<close> gives 1 at 0.
\<close>

definition arith_ok :: "arith \<Rightarrow> bool" where
  "arith_ok A \<longleftrightarrow>
     (\<forall>x y. x \<le> y \<longrightarrow> rnd A x \<le> rnd A y)
     \<and> (\<forall>x. rnd A (- x) = - rnd A x)
     \<and> (\<forall>k\<le>40. rnd A (2 ^ k) = 2 ^ k \<and> rnd A (1 / 2 ^ k) = 1 / 2 ^ k)
     \<and> 4 \<le> fmax A
     \<and> (\<forall>x. - 1 \<le> lib_tanh A x \<and> lib_tanh A x \<le> 1)
     \<and> (\<forall>x y. 0 < x \<and> x \<le> y \<longrightarrow> lib_log A x \<le> lib_log A y)
     \<and> lib_log A 1 = 0
     \<and> lib_exp A 0 = 1"

text \<open>
  Two arithmetics with the ranges of binary32 and binary64, in which every result
  within the range is exact and the library functions are the mathematical ones.
\<close>

definition exact32 :: arith where
  "exact32 = \<lparr>rnd = (\<lambda>x. x), fmax = (2 - 1 / 2 ^ 23) * 2 ^ 127,
              lib_exp = exp, lib_tanh = tanh, lib_log = ln\<rparr>"

definition exact64 :: arith where
  "exact64 = \<lparr>rnd = (\<lambda>x. x), fmax = (2 - 1 / 2 ^ 52) * 2 ^ 1023,
              lib_exp = exp, lib_tanh = tanh, lib_log = ln\<rparr>"

text \<open>\<^verbatim>\<open>th.log\<close> of the floor \<^verbatim>\<open>1e-12\<close>, as the element type represents it.\<close>

definition log_floor :: "arith \<Rightarrow> arith \<Rightarrow> real" where
  "log_floor py th = lib_log th (rnd th (rnd py (1 / 10 ^ 12)))"

definition unit_or_nan :: "fval \<Rightarrow> bool" where
  "unit_or_nan v \<longleftrightarrow> v = NaN \<or> (\<exists>r. v = Fin r \<and> 0 \<le> r \<and> r \<le> 1)"

definition log_ok :: "arith \<Rightarrow> arith \<Rightarrow> fval \<Rightarrow> bool" where
  "log_ok py th v \<longleftrightarrow> v = NaN \<or> (\<exists>z. v = Fin z \<and> log_floor py th \<le> z \<and> z \<le> 0)"

definition fnonneg :: "fval \<Rightarrow> bool" where
  "fnonneg v \<longleftrightarrow> v = PInf \<or> (\<exists>x. v = Fin x \<and> 0 \<le> x)"

definition fnonpos :: "fval \<Rightarrow> bool" where
  "fnonpos v \<longleftrightarrow> v = NInf \<or> (\<exists>x. v = Fin x \<and> x \<le> 0)"

fun is_fin :: "fval \<Rightarrow> bool" where
  "is_fin (Fin x) = True"
| "is_fin v = False"

definition kl_elem :: "arith \<Rightarrow> arith \<Rightarrow> fval \<Rightarrow> fval \<Rightarrow> fval \<Rightarrow> fval \<Rightarrow> fval" where
  "kl_elem py th m1 l1 m2 l2 =
     fmul th (to_elem th (py_lit py 0.5))
       (fadd th
          (fadd th (fsub th (fadd th (to_elem th (fneg (py_lit py 1.0))) l2) l1)
             (fexp th (fsub th l1 l2)))
          (fmul th (fmul th (fsub th m1 m2) (fsub th m1 m2)) (fexp th (fneg l2))))"

section \<open>Broadcasting: basic facts\<close>

lemma src_offset_same: "k < prod_list ds \<Longrightarrow> src_offset ds ds k = k"
proof (induction ds arbitrary: k)
  case Nil
  then show ?case by simp
next
  case (Cons d ds)
  from Cons.prems have dpos: "0 < d" by (cases "d = 0") auto
  from Cons.prems have "k < d * prod_list ds" by simp
  then have "k div d < prod_list ds"
    using dpos by (simp add: less_mult_imp_div_less mult.commute)
  then have ih: "src_offset ds ds (k div d) = k div d" by (rule Cons.IH)
  show ?case
  proof (cases "d = 1")
    case True
    then show ?thesis using ih by simp
  next
    case False
    then show ?thesis using ih by simp
  qed
qed

lemma broadcast_rev_same: "broadcast_rev ds ds = Some ds"
  by (induction ds) auto

lemma broadcast_shapes_same: "broadcast_shapes s s = Some s"
  by (simp add: broadcast_shapes_def broadcast_rev_same)

lemma expand_to_same:
  assumes "wf_tensor t"
  shows "expand_to t (shape t) = data t"
proof -
  have "map (\<lambda>k. data t ! src_offset (rev (shape t)) (rev (shape t)) k) [0..<numel (shape t)]
        = map (\<lambda>k. data t ! k) [0..<numel (shape t)]"
    by (rule map_cong) (simp_all add: numel_def src_offset_same)
  also have "\<dots> = data t"
    using assms map_nth [of "data t"] by (simp add: wf_tensor_def)
  finally show ?thesis by (simp add: expand_to_def)
qed

lemma tensor_binop_same:
  assumes "wf_tensor a" "wf_tensor b" "shape a = shape b"
  shows "tensor_binop f a b = Inr \<lparr>shape = shape a, data = map2 f (data a) (data b)\<rparr>"
  using assms expand_to_same [of a] expand_to_same [of b]
  by (simp add: tensor_binop_def broadcast_shapes_same)

lemma expands_to_refl: "expands_to ds ds"
  by (induction ds) auto

lemma expands_to_trans: "expands_to a b \<Longrightarrow> expands_to b c \<Longrightarrow> expands_to a c"
  by (induction a b arbitrary: c rule: expands_to.induct) (auto elim: expands_to.elims)

lemma expands_to_antisym: "expands_to a b \<Longrightarrow> expands_to b a \<Longrightarrow> a = b"
  by (induction a b rule: expands_to.induct) (auto elim: expands_to.elims)

lemma broadcast_rev_upper:
  "broadcast_rev a b = Some c \<Longrightarrow> expands_to a c \<and> expands_to b c"
  by (induction a b arbitrary: c rule: broadcast_rev.induct)
     (auto simp: expands_to_refl split: if_splits)

lemma broadcast_rev_least:
  "expands_to a u \<Longrightarrow> expands_to b u \<Longrightarrow> \<exists>c. broadcast_rev a b = Some c \<and> expands_to c u"
proof (induction a b arbitrary: u rule: broadcast_rev.induct)
  case (1 es)
  then show ?case by simp
next
  case (2 d ds)
  then show ?case by simp
next
  case (3 d ds e es)
  then obtain w ws where u: "u = w # ws" by (cases u) auto
  with 3 show ?case by fastforce
qed

lemma src_offset_bound:
  "expands_to a c \<Longrightarrow> k < prod_list c \<Longrightarrow> src_offset a c k < prod_list a"
proof (induction a c k rule: src_offset.induct)
  case (1 es k)
  then show ?case by simp
next
  case (2 d ds k)
  then show ?case by simp
next
  case (3 d ds e es k)
  from "3.prems" have epos: "0 < e" by (cases "e = 0") auto
  from "3.prems" have "k div e < prod_list es"
    using epos by (simp add: less_mult_imp_div_less mult.commute)
  with 3 have ih: "src_offset ds es (k div e) < prod_list ds" by simp
  show ?case
  proof (cases "d = 1")
    case True
    then show ?thesis using ih by simp
  next
    case False
    with "3.prems" have de: "d = e" by simp
    have "k mod e + e * src_offset ds es (k div e) < e * (src_offset ds es (k div e) + 1)"
      using epos by simp
    also have "\<dots> \<le> e * prod_list ds"
      using ih by (intro mult_le_mono2) simp
    finally show ?thesis using False de by simp
  qed
qed

lemma src_offset_comp:
  "expands_to a b \<Longrightarrow> expands_to b c \<Longrightarrow> k < prod_list c \<Longrightarrow>
     src_offset a b (src_offset b c k) = src_offset a c k"
proof (induction a b arbitrary: c k rule: expands_to.induct)
  case (1 es)
  then show ?case by simp
next
  case (2 d ds)
  then show ?case by simp
next
  case (3 d ds e es)
  from "3.prems" obtain g gs where c: "c = g # gs" by (cases c) auto
  from "3.prems" c have gpos: "0 < g" by (cases "g = 0") auto
  from "3.prems" c have kd: "k div g < prod_list gs"
    using gpos by (simp add: less_mult_imp_div_less mult.commute)
  from "3.prems" c have ab: "expands_to ds es" and bc: "expands_to es gs" by auto
  have ih: "src_offset ds es (src_offset es gs (k div g)) = src_offset ds gs (k div g)"
    using "3.IH" [OF ab bc kd] .
  show ?case
  proof (cases "e = 1")
    case True
    with "3.prems" have "d = 1" by simp
    with True ih c show ?thesis by simp
  next
    case False
    with "3.prems" c have eg: "e = g" by simp
    show ?thesis using False eg c ih gpos by simp
  qed
qed

lemma broadcast_shapes_upper:
  "broadcast_shapes a b = Some c \<Longrightarrow> expands_to (rev a) (rev c) \<and> expands_to (rev b) (rev c)"
  by (auto simp: broadcast_shapes_def dest: broadcast_rev_upper)

lemma broadcast_shapes_least:
  assumes "expands_to (rev a) (rev u)" "expands_to (rev b) (rev u)"
  shows "\<exists>c. broadcast_shapes a b = Some c \<and> expands_to (rev c) (rev u)"
  using broadcast_rev_least [OF assms] by (auto simp: broadcast_shapes_def)

lemma length_expand_to: "length (expand_to t s) = numel s"
  by (simp add: expand_to_def)

lemma nth_expand_to:
  "k < numel s \<Longrightarrow> expand_to t s ! k = data t ! src_offset (rev (shape t)) (rev s) k"
  by (simp add: expand_to_def)

lemma tensor_binop_Inr:
  assumes "broadcast_shapes (shape a) (shape b) = Some c"
  shows "tensor_binop f a b =
           Inr \<lparr>shape = c, data = map (\<lambda>k. f (expand_to a c ! k) (expand_to b c ! k)) [0..<numel c]\<rparr>"
proof -
  have "map2 f (expand_to a c) (expand_to b c)
        = map (\<lambda>k. f (expand_to a c ! k) (expand_to b c ! k)) [0..<numel c]"
    by (rule nth_equalityI) (simp_all add: length_expand_to)
  then show ?thesis using assms by (simp add: tensor_binop_def)
qed

lemma tensor_binop_elems:
  assumes a: "elems_at (PyTensor a) s ga" and b: "elems_at (PyTensor b) s gb"
  shows "\<exists>c. tensor_binop f a b = Inr c \<and> elems_at (PyTensor c) s (\<lambda>k. f (ga k) (gb k))
           \<and> broadcast_shapes (shape a) (shape b) = Some (shape c)"
proof -
  from a b have ea: "expands_to (rev (shape a)) (rev s)" and eb: "expands_to (rev (shape b)) (rev s)"
    by (simp_all add: elems_at_def)
  from broadcast_shapes_least [OF ea eb] obtain c
    where c: "broadcast_shapes (shape a) (shape b) = Some c" and cs: "expands_to (rev c) (rev s)"
    by blast
  from broadcast_shapes_upper [OF c]
  have ac: "expands_to (rev (shape a)) (rev c)" and bc: "expands_to (rev (shape b)) (rev c)"
    by simp_all
  let ?r = "\<lparr>shape = c, data = map (\<lambda>k. f (expand_to a c ! k) (expand_to b c ! k)) [0..<numel c]\<rparr>"
  have r: "tensor_binop f a b = Inr ?r" by (rule tensor_binop_Inr [OF c])
  have "pv_at (PyTensor ?r) s k = f (ga k) (gb k)" if k: "k < numel s" for k
  proof -
    let ?j = "src_offset (rev c) (rev s) k"
    have j: "?j < numel c"
      using src_offset_bound [OF cs, of k] k by (simp add: numel_def)
    have "src_offset (rev (shape a)) (rev c) ?j = src_offset (rev (shape a)) (rev s) k"
      using src_offset_comp [OF ac cs, of k] k by (simp add: numel_def)
    moreover have "src_offset (rev (shape b)) (rev c) ?j = src_offset (rev (shape b)) (rev s) k"
      using src_offset_comp [OF bc cs, of k] k by (simp add: numel_def)
    ultimately show ?thesis
      using a b k j by (simp add: elems_at_def nth_expand_to)
  qed
  then have "elems_at (PyTensor ?r) s (\<lambda>k. f (ga k) (gb k))"
    using cs by (simp add: elems_at_def wf_tensor_def)
  with r c show ?thesis by auto
qed

section \<open>Elementwise reading of results\<close>

lemma tensor_map_elems:
  assumes "elems_at (PyTensor t) s g"
  shows "elems_at (PyTensor (tensor_map f t)) s (\<lambda>k. f (g k))"
proof -
  from assms have wf: "length (data t) = numel (shape t)"
    and ex: "expands_to (rev (shape t)) (rev s)"
    and el: "\<forall>k<numel s. data t ! src_offset (rev (shape t)) (rev s) k = g k"
    by (simp_all add: elems_at_def wf_tensor_def)
  have "map f (data t) ! src_offset (rev (shape t)) (rev s) k = f (g k)" if "k < numel s" for k
  proof -
    have "src_offset (rev (shape t)) (rev s) k < length (data t)"
      using src_offset_bound [OF ex, of k] that wf by (simp add: numel_def)
    then show ?thesis using el that by simp
  qed
  then show ?thesis using wf ex by (simp add: elems_at_def wf_tensor_def tensor_map_def)
qed

lemma elems_at_PyFloat: "elems_at (PyFloat x) s g \<longleftrightarrow> (\<forall>k<numel s. g k = x)"
  by (auto simp: elems_at_def)

lemma pv_binop_elems:
  assumes a: "elems_at a s ga" and b: "elems_at b s gb"
  shows "\<exists>c. pv_binop f a b = Inr c \<and> elems_at c s (\<lambda>k. f (ga k) (gb k))
           \<and> broadcast_shapes (pv_shape a) (pv_shape b) = Some (pv_shape c)
           \<and> (is_tensor c \<longleftrightarrow> is_tensor a \<or> is_tensor b)"
proof (cases a)
  case fa: (PyFloat x)
  show ?thesis
  proof (cases b)
    case (PyFloat y)
    with fa a b show ?thesis
      by (simp add: elems_at_PyFloat broadcast_shapes_def)
  next
    case (PyTensor t)
    from b PyTensor have "elems_at (PyTensor (tensor_map (f x) t)) s (\<lambda>k. f x (gb k))"
      using tensor_map_elems [of t s gb "f x"] by simp
    moreover have "\<forall>k<numel s. f x (gb k) = f (ga k) (gb k)"
      using a fa by (simp add: elems_at_PyFloat)
    ultimately have "elems_at (PyTensor (tensor_map (f x) t)) s (\<lambda>k. f (ga k) (gb k))"
      by (simp add: elems_at_def)
    with fa PyTensor show ?thesis
      by (simp add: broadcast_shapes_def tensor_map_def)
  qed
next
  case ta: (PyTensor u)
  show ?thesis
  proof (cases b)
    case (PyFloat y)
    from a ta have "elems_at (PyTensor (tensor_map (\<lambda>v. f v y) u)) s (\<lambda>k. f (ga k) y)"
      using tensor_map_elems [of u s ga "\<lambda>v. f v y"] by simp
    moreover have "\<forall>k<numel s. f (ga k) y = f (ga k) (gb k)"
      using b PyFloat by (simp add: elems_at_PyFloat)
    ultimately have "elems_at (PyTensor (tensor_map (\<lambda>v. f v y) u)) s (\<lambda>k. f (ga k) (gb k))"
      by (simp add: elems_at_def)
    moreover have "broadcast_rev (rev (shape u)) [] = Some (rev (shape u))"
      by (cases "rev (shape u)") simp_all
    ultimately show ?thesis using ta PyFloat
      by (simp add: broadcast_shapes_def tensor_map_def)
  next
    case (PyTensor t)
    from tensor_binop_elems [of u s ga t gb f] a b ta PyTensor
    obtain c where "tensor_binop f u t = Inr c"
      "elems_at (PyTensor c) s (\<lambda>k. f (ga k) (gb k))"
      "broadcast_shapes (shape u) (shape t) = Some (shape c)"
      by auto
    with ta PyTensor show ?thesis by (simp add: rbind_def)
  qed
qed

lemma pv_map_elems:
  assumes "elems_at a s g"
  shows "elems_at (pv_map f a) s (\<lambda>k. f (g k))"
proof (cases a)
  case (PyFloat x)
  with assms show ?thesis by (simp add: elems_at_PyFloat)
next
  case (PyTensor t)
  with assms show ?thesis by (simp add: tensor_map_elems)
qed

lemma pv_shape_pv_map: "pv_shape (pv_map f a) = pv_shape a"
  by (cases a) (simp_all add: tensor_map_def)

lemma is_tensor_pv_map: "is_tensor (pv_map f a) = is_tensor a"
  by (cases a) simp_all

lemma th_exp_elems:
  assumes "is_tensor a" "elems_at a s g"
  shows "\<exists>c. th_exp a = Inr c \<and> elems_at c s (\<lambda>k. exp (g k)) \<and> pv_shape c = pv_shape a
           \<and> is_tensor c"
proof (cases a)
  case (PyFloat x)
  with assms show ?thesis by simp
next
  case (PyTensor t)
  with assms show ?thesis by (simp add: tensor_map_elems) (simp add: tensor_map_def)
qed

lemma force_tensor_elems: "elems_at a s g \<Longrightarrow> elems_at (force_tensor t a) s g"
  by (cases a) (auto simp: elems_at_def wf_tensor_def numel_def)

lemma pv_shape_force_tensor: "pv_shape (force_tensor t a) = pv_shape a"
  by (cases a) simp_all

lemma is_tensor_force_tensor: "is_tensor (force_tensor t a)"
  by (cases a) simp_all

lemma elems_at_self:
  "pv_wf a \<Longrightarrow> expands_to (rev (pv_shape a)) (rev s) \<Longrightarrow> elems_at a s (pv_at a s)"
  by (simp add: elems_at_def)

lemma find_tensor_None_iff: "find_tensor objs = None \<longleftrightarrow> (\<forall>v\<in>set objs. \<not> is_tensor v)"
  by (induction objs rule: find_tensor.induct) auto

lemma pv_binop_elems_upper:
  assumes a: "elems_at a s ga" and b: "elems_at b s gb"
  obtains c where "pv_binop f a b = Inr c" "elems_at c s (\<lambda>k. f (ga k) (gb k))"
    "expands_to (rev (pv_shape a)) (rev (pv_shape c))"
    "expands_to (rev (pv_shape b)) (rev (pv_shape c))"
    "is_tensor c \<longleftrightarrow> is_tensor a \<or> is_tensor b"
proof -
  from pv_binop_elems [OF a b, of f] obtain c where c: "pv_binop f a b = Inr c"
    "elems_at c s (\<lambda>k. f (ga k) (gb k))"
    "broadcast_shapes (pv_shape a) (pv_shape b) = Some (pv_shape c)"
    "is_tensor c \<longleftrightarrow> is_tensor a \<or> is_tensor b"
    by blast
  from broadcast_shapes_upper [OF c(3)] c that show thesis by blast
qed

lemma broadcast4_upper:
  assumes "broadcast4 a b c d = Some s"
  shows "expands_to (rev a) (rev s)" "expands_to (rev b) (rev s)"
    "expands_to (rev c) (rev s)" "expands_to (rev d) (rev s)"
proof -
  from assms obtain ab abc where ab: "broadcast_shapes a b = Some ab"
    and abc: "broadcast_shapes ab c = Some abc" and s: "broadcast_shapes abc d = Some s"
    by (auto simp: broadcast4_def split: Option.bind_splits)
  note u1 = broadcast_shapes_upper [OF ab] and u2 = broadcast_shapes_upper [OF abc]
    and u3 = broadcast_shapes_upper [OF s]
  from u3 show "expands_to (rev d) (rev s)" by simp
  from u2 u3 show "expands_to (rev c) (rev s)" by (blast intro: expands_to_trans)
  from u1 u2 u3 show "expands_to (rev a) (rev s)" by (blast intro: expands_to_trans)
  from u1 u2 u3 show "expands_to (rev b) (rev s)" by (blast intro: expands_to_trans)
qed

lemma broadcast4_least:
  assumes "expands_to (rev a) (rev u)" "expands_to (rev b) (rev u)"
    "expands_to (rev c) (rev u)" "expands_to (rev d) (rev u)"
  shows "\<exists>s. broadcast4 a b c d = Some s \<and> expands_to (rev s) (rev u)"
proof -
  from broadcast_shapes_least [OF assms(1,2)] obtain ab
    where ab: "broadcast_shapes a b = Some ab" "expands_to (rev ab) (rev u)" by blast
  from broadcast_shapes_least [OF ab(2) assms(3)] obtain abc
    where abc: "broadcast_shapes ab c = Some abc" "expands_to (rev abc) (rev u)" by blast
  from broadcast_shapes_least [OF abc(2) assms(4)] obtain s
    where s: "broadcast_shapes abc d = Some s" "expands_to (rev s) (rev u)" by blast
  from ab abc s show ?thesis by (simp add: broadcast4_def)
qed

lemma normal_kl_elems:
  assumes m1: "elems_at mean1 s g1" and l1: "elems_at logvar1 s g2"
    and m2: "elems_at mean2 s g3" and l2: "elems_at logvar2 s g4"
    and tens: "find_tensor [mean1, logvar1, mean2, logvar2] = Some t"
  shows "\<exists>r. normal_kl mean1 logvar1 mean2 logvar2 = Inr r \<and> is_tensor r
           \<and> elems_at r s (\<lambda>k. kl_formula (g1 k) (g2 k) (g3 k) (g4 k))
           \<and> expands_to (rev (pv_shape mean1)) (rev (pv_shape r))
           \<and> expands_to (rev (pv_shape logvar1)) (rev (pv_shape r))
           \<and> expands_to (rev (pv_shape mean2)) (rev (pv_shape r))
           \<and> expands_to (rev (pv_shape logvar2)) (rev (pv_shape r))"
proof -
  define lv1 where "lv1 = force_tensor t logvar1"
  define lv2 where "lv2 = force_tensor t logvar2"
  have lv1: "elems_at lv1 s g2" "is_tensor lv1" "pv_shape lv1 = pv_shape logvar1"
    using l1 by (simp_all add: lv1_def force_tensor_elems is_tensor_force_tensor
        pv_shape_force_tensor)
  have lv2: "elems_at lv2 s g4" "is_tensor lv2" "pv_shape lv2 = pv_shape logvar2"
    using l2 by (simp_all add: lv2_def force_tensor_elems is_tensor_force_tensor
        pv_shape_force_tensor)
  have c1: "elems_at (PyFloat (- 1)) s (\<lambda>k. - 1)" by (simp add: elems_at_PyFloat)
  have ch: "elems_at (PyFloat 0.5) s (\<lambda>k. 0.5)" by (simp add: elems_at_PyFloat)
  from pv_binop_elems_upper [OF c1 lv2(1), of "(+)"] obtain a where
    a: "pv_binop (+) (PyFloat (- 1)) lv2 = Inr a" "elems_at a s (\<lambda>k. - 1 + g4 k)"
      "expands_to (rev (pv_shape lv2)) (rev (pv_shape a))" "is_tensor a"
    using lv2(2) by blast
  from pv_binop_elems_upper [OF a(2) lv1(1), of "(-)"] obtain b where
    b: "pv_binop (-) a lv1 = Inr b" "elems_at b s (\<lambda>k. - 1 + g4 k - g2 k)"
      "expands_to (rev (pv_shape a)) (rev (pv_shape b))"
      "expands_to (rev (pv_shape lv1)) (rev (pv_shape b))" "is_tensor b"
    using lv1(2) by blast
  from pv_binop_elems_upper [OF lv1(1) lv2(1), of "(-)"] obtain d where
    d: "pv_binop (-) lv1 lv2 = Inr d" "elems_at d s (\<lambda>k. g2 k - g4 k)" "is_tensor d"
    using lv1(2) by blast
  from th_exp_elems [OF d(3) d(2)] obtain c where
    c: "th_exp d = Inr c" "elems_at c s (\<lambda>k. exp (g2 k - g4 k))" by blast
  from pv_binop_elems_upper [OF b(2) c(2), of "(+)"] obtain e where
    e: "pv_binop (+) b c = Inr e" "elems_at e s (\<lambda>k. - 1 + g4 k - g2 k + exp (g2 k - g4 k))"
      "expands_to (rev (pv_shape b)) (rev (pv_shape e))" "is_tensor e"
    using b(5) by blast
  from pv_binop_elems_upper [OF m1 m2, of "(-)"] obtain m where
    m: "pv_binop (-) mean1 mean2 = Inr m" "elems_at m s (\<lambda>k. g1 k - g3 k)"
      "expands_to (rev (pv_shape mean1)) (rev (pv_shape m))"
      "expands_to (rev (pv_shape mean2)) (rev (pv_shape m))" by blast
  have nl: "elems_at (pv_map uminus lv2) s (\<lambda>k. - g4 k)" "is_tensor (pv_map uminus lv2)"
    using lv2 by (simp_all add: pv_map_elems is_tensor_pv_map)
  from th_exp_elems [OF nl(2) nl(1)] obtain f where
    f: "th_exp (pv_map uminus lv2) = Inr f" "elems_at f s (\<lambda>k. exp (- g4 k))" by blast
  have sq: "elems_at (pv_map (\<lambda>v. v ^ 2) m) s (\<lambda>k. (g1 k - g3 k) ^ 2)"
    using pv_map_elems [OF m(2), of "\<lambda>v. v ^ 2"] by simp
  from pv_binop_elems_upper [OF sq f(2), of "(*)"] obtain g where
    g: "pv_binop (*) (pv_map (\<lambda>v. v ^ 2) m) f = Inr g"
      "elems_at g s (\<lambda>k. (g1 k - g3 k) ^ 2 * exp (- g4 k))"
      "expands_to (rev (pv_shape (pv_map (\<lambda>v. v ^ 2) m))) (rev (pv_shape g))" by blast
  from pv_binop_elems_upper [OF e(2) g(2), of "(+)"] obtain h where
    h: "pv_binop (+) e g = Inr h"
      "elems_at h s (\<lambda>k. - 1 + g4 k - g2 k + exp (g2 k - g4 k) + (g1 k - g3 k) ^ 2 * exp (- g4 k))"
      "expands_to (rev (pv_shape e)) (rev (pv_shape h))"
      "expands_to (rev (pv_shape g)) (rev (pv_shape h))" "is_tensor h"
    using e(4) by blast
  from pv_binop_elems_upper [OF ch h(2), of "(*)"] obtain r where
    r: "pv_binop (*) (PyFloat 0.5) h = Inr r"
      "elems_at r s (\<lambda>k. 0.5 * (- 1 + g4 k - g2 k + exp (g2 k - g4 k)
                              + (g1 k - g3 k) ^ 2 * exp (- g4 k)))"
      "expands_to (rev (pv_shape h)) (rev (pv_shape r))"
      "is_tensor r"
    using h(5) by blast
  have res: "normal_kl mean1 logvar1 mean2 logvar2 = Inr r"
    using tens a(1) b(1) d(1) c(1) e(1) m(1) f(1) g(1) h(1) r(1)
    by (simp add: normal_kl_def Let_def rbind_def lv1_def [symmetric] lv2_def [symmetric])
  have el: "elems_at r s (\<lambda>k. kl_formula (g1 k) (g2 k) (g3 k) (g4 k))"
    using r(2) by (simp add: kl_formula_def)
  have up_m: "expands_to (rev (pv_shape m)) (rev (pv_shape r))"
    using g(3) h(4) r(3) by (simp add: pv_shape_pv_map) (blast intro: expands_to_trans)
  have up_b: "expands_to (rev (pv_shape b)) (rev (pv_shape r))"
    using e(3) h(3) r(3) by (blast intro: expands_to_trans)
  have u1: "expands_to (rev (pv_shape mean1)) (rev (pv_shape r))"
    using m(3) up_m by (blast intro: expands_to_trans)
  have u3: "expands_to (rev (pv_shape mean2)) (rev (pv_shape r))"
    using m(4) up_m by (blast intro: expands_to_trans)
  have u2: "expands_to (rev (pv_shape logvar1)) (rev (pv_shape r))"
    using b(4) up_b lv1(3) by (auto intro: expands_to_trans)
  have u4: "expands_to (rev (pv_shape logvar2)) (rev (pv_shape r))"
    using a(3) b(3) up_b lv2(3) by (auto intro: expands_to_trans)
  from res r(4) el u1 u2 u3 u4 show ?thesis by blast
qed

lemma elems_at_full:
  assumes "elems_at (PyTensor r) s g" "shape r = s"
  shows "r = \<lparr>shape = s, data = map g [0..<numel s]\<rparr>"
proof -
  from assms have len: "length (data r) = numel s"
    and el: "\<forall>k<numel s. data r ! src_offset (rev s) (rev s) k = g k"
    by (simp_all add: elems_at_def wf_tensor_def)
  have "data r = map g [0..<numel s]"
  proof (rule nth_equalityI)
    show "length (data r) = length (map g [0..<numel s])" using len by simp
  next
    fix k assume "k < length (data r)"
    with len have k: "k < numel s" by simp
    then have "src_offset (rev s) (rev s) k = k"
      by (simp add: src_offset_same numel_def)
    moreover from el k have "data r ! src_offset (rev s) (rev s) k = g k" by blast
    ultimately show "data r ! k = map g [0..<numel s] ! k" using k by simp
  qed
  with assms(2) show ?thesis by simp
qed

lemma find_tensor_Some:
  assumes "is_tensor a \<or> is_tensor b \<or> is_tensor c \<or> is_tensor d"
  shows "\<exists>t. find_tensor [a, b, c, d] = Some t"
proof -
  from assms have "find_tensor [a, b, c, d] \<noteq> None"
    by (auto simp: find_tensor_None_iff)
  then show ?thesis by auto
qed

lemma normal_kl_broadcast:
  assumes wf: "pv_wf mean1" "pv_wf logvar1" "pv_wf mean2" "pv_wf logvar2"
    and tens: "is_tensor mean1 \<or> is_tensor logvar1 \<or> is_tensor mean2 \<or> is_tensor logvar2"
    and bc: "broadcast4 (pv_shape mean1) (pv_shape logvar1) (pv_shape mean2) (pv_shape logvar2)
               = Some s"
  shows "normal_kl mean1 logvar1 mean2 logvar2 =
           Inr (PyTensor \<lparr>shape = s,
                  data = map (\<lambda>k. kl_formula (pv_at mean1 s k) (pv_at logvar1 s k)
                                    (pv_at mean2 s k) (pv_at logvar2 s k)) [0..<numel s]\<rparr>)"
proof -
  from find_tensor_Some [OF tens] obtain t
    where t: "find_tensor [mean1, logvar1, mean2, logvar2] = Some t" by blast
  note up = broadcast4_upper [OF bc]
  from normal_kl_elems [OF elems_at_self [OF wf(1) up(1)] elems_at_self [OF wf(2) up(2)]
      elems_at_self [OF wf(3) up(3)] elems_at_self [OF wf(4) up(4)] t]
  obtain r where r: "normal_kl mean1 logvar1 mean2 logvar2 = Inr r" "is_tensor r"
    "elems_at r s (\<lambda>k. kl_formula (pv_at mean1 s k) (pv_at logvar1 s k)
                        (pv_at mean2 s k) (pv_at logvar2 s k))"
    "expands_to (rev (pv_shape mean1)) (rev (pv_shape r))"
    "expands_to (rev (pv_shape logvar1)) (rev (pv_shape r))"
    "expands_to (rev (pv_shape mean2)) (rev (pv_shape r))"
    "expands_to (rev (pv_shape logvar2)) (rev (pv_shape r))"
    by blast
  from broadcast4_least [OF r(4-7)] bc have "expands_to (rev s) (rev (pv_shape r))" by simp
  moreover from r(3) have "expands_to (rev (pv_shape r)) (rev s)" by (simp add: elems_at_def)
  ultimately have "rev (pv_shape r) = rev s" using expands_to_antisym by blast
  then have sh: "pv_shape r = s" by simp
  from r(2) obtain u where u: "r = PyTensor u" by (cases r) auto
  with sh r(3) elems_at_full [of u s] r(1) show ?thesis by simp
qed

lemma kl_formula_nonneg: "0 \<le> kl_formula m1 lv1 m2 lv2"
proof -
  have "1 + (lv1 - lv2) \<le> exp (lv1 - lv2)" by (rule exp_ge_add_one_self)
  moreover have "0 \<le> (m1 - m2) ^ 2 * exp (- lv2)" by simp
  ultimately have "0 \<le> - 1 + lv2 - lv1 + exp (lv1 - lv2) + (m1 - m2) ^ 2 * exp (- lv2)"
    by linarith
  then have "0 \<le> 0.5 * (- 1 + lv2 - lv1 + exp (lv1 - lv2) + (m1 - m2) ^ 2 * exp (- lv2))"
    by (intro mult_nonneg_nonneg) simp_all
  then show ?thesis unfolding kl_formula_def .
qed

lemma kl_formula_same: "kl_formula m lv m lv = 0"
  by (simp add: kl_formula_def)

lemma pv_binop_Inr_upper:
  assumes "pv_binop f a b = Inr c"
  shows "expands_to (rev (pv_shape a)) (rev (pv_shape c))
       \<and> expands_to (rev (pv_shape b)) (rev (pv_shape c))"
proof (cases a)
  case fa: (PyFloat x)
  show ?thesis
  proof (cases b)
    case (PyFloat y)
    with fa assms show ?thesis by auto
  next
    case (PyTensor t)
    with fa assms show ?thesis by (auto simp: tensor_map_def expands_to_refl)
  qed
next
  case ta: (PyTensor u)
  show ?thesis
  proof (cases b)
    case (PyFloat y)
    with ta assms show ?thesis by (auto simp: tensor_map_def expands_to_refl)
  next
    case (PyTensor t)
    with ta assms obtain w where "broadcast_shapes (shape u) (shape t) = Some w" "pv_shape c = w"
      by (auto simp: rbind_def tensor_binop_def split: option.splits)
    with ta PyTensor broadcast_shapes_upper [of "shape u" "shape t" w] show ?thesis by simp
  qed
qed

lemma th_exp_Inr_shape: "th_exp a = Inr c \<Longrightarrow> pv_shape c = pv_shape a"
  by (cases a) (auto simp: tensor_map_def)

lemma rbind_Inr_iff: "rbind m f = Inr r \<longleftrightarrow> (\<exists>v. m = Inr v \<and> f v = Inr r)"
  by (cases m) (simp_all add: rbind_def)

lemma normal_kl_Inr_upper:
  assumes "normal_kl mean1 logvar1 mean2 logvar2 = Inr r"
  shows "expands_to (rev (pv_shape mean1)) (rev (pv_shape r))"
    "expands_to (rev (pv_shape logvar1)) (rev (pv_shape r))"
    "expands_to (rev (pv_shape mean2)) (rev (pv_shape r))"
    "expands_to (rev (pv_shape logvar2)) (rev (pv_shape r))"
proof -
  from assms obtain t where t: "find_tensor [mean1, logvar1, mean2, logvar2] = Some t"
    by (cases "find_tensor [mean1, logvar1, mean2, logvar2]") (auto simp: normal_kl_def)
  define lv1 where "lv1 = force_tensor t logvar1"
  define lv2 where "lv2 = force_tensor t logvar2"
  from assms t obtain a b d c e m f g h where
    st: "pv_binop (+) (PyFloat (- 1)) lv2 = Inr a" "pv_binop (-) a lv1 = Inr b"
      "pv_binop (-) lv1 lv2 = Inr d" "th_exp d = Inr c" "pv_binop (+) b c = Inr e"
      "pv_binop (-) mean1 mean2 = Inr m" "th_exp (pv_map uminus lv2) = Inr f"
      "pv_binop (*) (pv_map (\<lambda>v. v ^ 2) m) f = Inr g" "pv_binop (+) e g = Inr h"
      "pv_binop (*) (PyFloat 0.5) h = Inr r"
    by (auto simp: normal_kl_def Let_def rbind_Inr_iff lv1_def [symmetric] lv2_def [symmetric])
  note ua = pv_binop_Inr_upper [OF st(1)] and ub = pv_binop_Inr_upper [OF st(2)]
    and ue = pv_binop_Inr_upper [OF st(5)] and um = pv_binop_Inr_upper [OF st(6)]
    and ug = pv_binop_Inr_upper [OF st(8)] and uh = pv_binop_Inr_upper [OF st(9)]
    and ur = pv_binop_Inr_upper [OF st(10)]
  have up_m: "expands_to (rev (pv_shape m)) (rev (pv_shape r))"
    using ug uh ur by (simp add: pv_shape_pv_map) (blast intro: expands_to_trans)
  have up_b: "expands_to (rev (pv_shape b)) (rev (pv_shape r))"
    using ue uh ur by (blast intro: expands_to_trans)
  show "expands_to (rev (pv_shape mean1)) (rev (pv_shape r))"
    using um up_m by (blast intro: expands_to_trans)
  show "expands_to (rev (pv_shape mean2)) (rev (pv_shape r))"
    using um up_m by (blast intro: expands_to_trans)
  have "expands_to (rev (pv_shape lv1)) (rev (pv_shape r))"
    using ub up_b by (blast intro: expands_to_trans)
  then show "expands_to (rev (pv_shape logvar1)) (rev (pv_shape r))"
    by (simp add: lv1_def pv_shape_force_tensor)
  have "expands_to (rev (pv_shape lv2)) (rev (pv_shape r))"
    using ua ub up_b by (blast intro: expands_to_trans)
  then show "expands_to (rev (pv_shape logvar2)) (rev (pv_shape r))"
    by (simp add: lv2_def pv_shape_force_tensor)
qed

lemma normal_kl_Inr_formula:
  assumes wf: "pv_wf mean1" "pv_wf logvar1" "pv_wf mean2" "pv_wf logvar2"
    and res: "normal_kl mean1 logvar1 mean2 logvar2 = Inr r"
  shows "\<exists>s. r = PyTensor \<lparr>shape = s,
                  data = map (\<lambda>k. kl_formula (pv_at mean1 s k) (pv_at logvar1 s k)
                                    (pv_at mean2 s k) (pv_at logvar2 s k)) [0..<numel s]\<rparr>"
proof -
  from broadcast4_least [OF normal_kl_Inr_upper [OF res]] obtain s where
    s: "broadcast4 (pv_shape mean1) (pv_shape logvar1) (pv_shape mean2) (pv_shape logvar2) = Some s"
    by blast
  from res have "find_tensor [mean1, logvar1, mean2, logvar2] \<noteq> None"
    by (cases "find_tensor [mean1, logvar1, mean2, logvar2]") (auto simp: normal_kl_def)
  then have "is_tensor mean1 \<or> is_tensor logvar1 \<or> is_tensor mean2 \<or> is_tensor logvar2"
    by (auto simp: find_tensor_None_iff)
  from normal_kl_broadcast [OF wf this s] res show ?thesis by auto
qed

lemma pv_binop_not_assert: "pv_binop f a b \<noteq> Inl AssertionError"
  by (cases a; cases b) (auto simp: rbind_def tensor_binop_def split: option.splits sum.splits)

lemma th_exp_not_assert: "th_exp a \<noteq> Inl AssertionError"
  by (cases a) auto

lemma rbind_Inl_iff: "rbind m f = Inl e \<longleftrightarrow> m = Inl e \<or> (\<exists>v. m = Inr v \<and> f v = Inl e)"
  by (cases m) (simp_all add: rbind_def)

lemma normal_kl_assert_iff:
  "normal_kl mean1 logvar1 mean2 logvar2 = Inl AssertionError \<longleftrightarrow>
     find_tensor [mean1, logvar1, mean2, logvar2] = None"
  by (auto simp: normal_kl_def Let_def rbind_Inl_iff pv_binop_not_assert th_exp_not_assert
      split: option.splits)

lemma upt_2: "[0..<2] = [0, Suc 0]"
  by (simp add: upt_rec)

lemma upt_1: "[0..<1] = [0]"
  by (simp add: upt_rec)

section \<open>Tensors of one shape\<close>

lemma wf_tensor_map: "wf_tensor (tensor_map f t) = wf_tensor t"
  by (simp add: wf_tensor_def tensor_map_def)

lemma shape_tensor_map: "shape (tensor_map f t) = shape t"
  by (simp add: tensor_map_def)

lemma data_tensor_map: "data (tensor_map f t) = map f (data t)"
  by (simp add: tensor_map_def)

lemma tensor_map_comp: "tensor_map f (tensor_map g t) = tensor_map (\<lambda>v. f (g v)) t"
  by (simp add: tensor_map_def)

lemma map2_map_same: "map2 f (map g xs) (map h xs) = map (\<lambda>v. f (g v) (h v)) xs"
  by (induction xs) simp_all

lemma approx_cdf_elementwise:
  assumes "wf_tensor x"
  shows "approx_standard_normal_cdf x = Inr (tensor_map cdf_formula x)"
proof -
  have "tensor_binop (+) x (tensor_map (\<lambda>v. 0.044715 * v) (tensor_map (\<lambda>v. v ^ 3) x))
        = Inr (tensor_map (\<lambda>v. v + 0.044715 * v ^ 3) x)"
    using assms map2_map_same [where f = "(+)" and g = "\<lambda>v. v" and h = "\<lambda>v. 0.044715 * v ^ 3"
        and xs = "data x"]
    by (simp add: tensor_binop_same wf_tensor_map shape_tensor_map tensor_map_comp)
       (simp add: tensor_map_def)
  then show ?thesis
    by (simp add: approx_standard_normal_cdf_def rbind_def tensor_map_comp
        cdf_formula_def [abs_def])
qed

lemma wf_tab: "wf_tensor (tab s g)"
  by (simp add: tab_def wf_tensor_def)

lemma shape_tab: "shape (tab s g) = s"
  by (simp add: tab_def)

lemma tensor_as_tab: "wf_tensor t \<Longrightarrow> t = tab (shape t) (\<lambda>i. data t ! i)"
  using map_nth [of "data t"] by (simp add: tab_def wf_tensor_def)

lemma tensor_map_tab: "tensor_map f (tab s g) = tab s (\<lambda>i. f (g i))"
  by (simp add: tab_def tensor_map_def)

lemma tensor_binop_tab: "tensor_binop f (tab s g) (tab s h) = Inr (tab s (\<lambda>i. f (g i) (h i)))"
proof -
  have "tensor_binop f (tab s g) (tab s h)
        = Inr \<lparr>shape = s, data = map2 f (data (tab s g)) (data (tab s h))\<rparr>"
    using tensor_binop_same [of "tab s g" "tab s h" f] by (simp add: wf_tab shape_tab)
  then show ?thesis by (simp add: tab_def map2_map_same)
qed

lemma th_where_tab:
  "th_where (tab s c) (tab s g) (tab s h) = Inr (tab s (\<lambda>i. if c i then g i else h i))"
  by (simp add: th_where_def tensor_binop_tab rbind_def)

lemma approx_cdf_tab:
  "approx_standard_normal_cdf (tab s g) = Inr (tab s (\<lambda>i. cdf_formula (g i)))"
  by (simp add: approx_cdf_elementwise wf_tab tensor_map_tab)

lemma tab_cong: "(\<And>i. i < numel s \<Longrightarrow> g i = h i) \<Longrightarrow> tab s g = tab s h"
  by (simp add: tab_def)

lemma dgll_tab:
  "discretized_gaussian_log_likelihood (tab s gx) (tab s gm) (tab s gl)
     = Inr (tab s (\<lambda>i. dgll_formula (gx i) (gm i) (gl i)))"
proof -
  have "discretized_gaussian_log_likelihood (tab s gx) (tab s gm) (tab s gl)
        = Inr (tab s (\<lambda>i. if gx i < - 0.999
               then ln (max (cdf_formula (exp (- gl i) * (gx i - gm i + 1.0 / 255.0))) (1 / 10 ^ 12))
               else if gx i > 0.999
               then ln (max (1.0 - cdf_formula (exp (- gl i) * (gx i - gm i - 1.0 / 255.0))) (1 / 10 ^ 12))
               else ln (max (cdf_formula (exp (- gl i) * (gx i - gm i + 1.0 / 255.0))
                            - cdf_formula (exp (- gl i) * (gx i - gm i - 1.0 / 255.0))) (1 / 10 ^ 12))))"
    unfolding discretized_gaussian_log_likelihood_def Let_def clamp_min_def
    by (simp only: shape_tab tensor_map_tab tensor_binop_tab th_where_tab approx_cdf_tab
        rbind_def sum.case simp_thms if_False if_True)
  also have "\<dots> = Inr (tab s (\<lambda>i. dgll_formula (gx i) (gm i) (gl i)))"
    unfolding dgll_formula_def Let_def
    by (intro arg_cong [where f = Inr] tab_cong) simp
  finally show ?thesis .
qed

lemma dgll_elementwise:
  assumes "wf_tensor x" "wf_tensor means" "wf_tensor log_scales"
    and "shape x = shape means" "shape means = shape log_scales"
  shows "discretized_gaussian_log_likelihood x means log_scales
     = Inr (tab (shape x) (\<lambda>i. dgll_formula (data x ! i) (data means ! i) (data log_scales ! i)))"
proof -
  have "x = tab (shape x) (\<lambda>i. data x ! i)" "means = tab (shape x) (\<lambda>i. data means ! i)"
    "log_scales = tab (shape x) (\<lambda>i. data log_scales ! i)"
    using assms tensor_as_tab [of x] tensor_as_tab [of means] tensor_as_tab [of log_scales]
    by simp_all
  then show ?thesis
    using dgll_tab [of "shape x" "\<lambda>i. data x ! i" "\<lambda>i. data means ! i" "\<lambda>i. data log_scales ! i"]
    by simp
qed

section \<open>Floating-point arithmetic: facts\<close>

lemma arith_ok_exact32: "arith_ok exact32"
  by (simp add: arith_ok_def exact32_def tanh_real_gt_neg1 tanh_real_lt_1 less_imp_le)

lemma arith_ok_exact64: "arith_ok exact64"
  by (simp add: arith_ok_def exact64_def tanh_real_gt_neg1 tanh_real_lt_1 less_imp_le)

lemma approx_cdf_fp_tab:
  "approx_standard_normal_cdf_fp py th (tab s g) = Inr (tab s (\<lambda>i. cdf_elem py th (g i)))"
  unfolding approx_standard_normal_cdf_fp_def cdf_elem_def
  by (simp only: tensor_map_tab tensor_binop_tab rbind_def sum.case)

lemma dgll_fp_tab:
  "discretized_gaussian_log_likelihood_fp py th (tab s gx) (tab s gm) (tab s gl)
     = Inr (tab s (\<lambda>i. dgll_elem py th (gx i) (gm i) (gl i)))"
proof -
  have "discretized_gaussian_log_likelihood_fp py th (tab s gx) (tab s gm) (tab s gl)
     = Inr (tab s (\<lambda>i.
         if flt (gx i) (to_elem th (fneg (py_lit py 0.999)))
         then flog th (fclamp_min (to_elem th (py_lit py (1 / 10 ^ 12)))
                (cdf_elem py th (fmul th (fexp th (fneg (gl i)))
                   (fadd th (fsub th (gx i) (gm i)) (to_elem th (one_over_255 py))))))
         else if flt (to_elem th (py_lit py 0.999)) (gx i)
         then flog th (fclamp_min (to_elem th (py_lit py (1 / 10 ^ 12)))
                (fsub th (to_elem th (py_lit py 1.0))
                   (cdf_elem py th (fmul th (fexp th (fneg (gl i)))
                      (fsub th (fsub th (gx i) (gm i)) (to_elem th (one_over_255 py)))))))
         else flog th (fclamp_min (to_elem th (py_lit py (1 / 10 ^ 12)))
                (fsub th
                   (cdf_elem py th (fmul th (fexp th (fneg (gl i)))
                      (fadd th (fsub th (gx i) (gm i)) (to_elem th (one_over_255 py)))))
                   (cdf_elem py th (fmul th (fexp th (fneg (gl i)))
                      (fsub th (fsub th (gx i) (gm i)) (to_elem th (one_over_255 py)))))))))"
    unfolding discretized_gaussian_log_likelihood_fp_def Let_def
    by (simp only: shape_tab tensor_map_tab tensor_binop_tab th_where_tab approx_cdf_fp_tab
        rbind_def sum.case simp_thms if_False if_True)
  also have "\<dots> = Inr (tab s (\<lambda>i. dgll_elem py th (gx i) (gm i) (gl i)))"
    unfolding dgll_elem_def floor12_def Let_def ..
  finally show ?thesis .
qed

lemma dgll_fp_elementwise:
  assumes "wf_tensor x" "wf_tensor means" "wf_tensor log_scales"
    and "shape x = shape means" "shape means = shape log_scales"
  shows "discretized_gaussian_log_likelihood_fp py th x means log_scales
     = Inr (tab (shape x)
              (\<lambda>i. dgll_elem py th (data x ! i) (data means ! i) (data log_scales ! i)))"
proof -
  have "x = tab (shape x) (\<lambda>i. data x ! i)" "means = tab (shape x) (\<lambda>i. data means ! i)"
    "log_scales = tab (shape x) (\<lambda>i. data log_scales ! i)"
    using assms tensor_as_tab [of x] tensor_as_tab [of means] tensor_as_tab [of log_scales]
    by simp_all
  then show ?thesis
    using dgll_fp_tab [of py th "shape x" "\<lambda>i. data x ! i" "\<lambda>i. data means ! i"
        "\<lambda>i. data log_scales ! i"]
    by simp
qed

lemma approx_cdf_fp_elementwise:
  assumes "wf_tensor x"
  shows "approx_standard_normal_cdf_fp py th x
           = Inr (tab (shape x) (\<lambda>i. cdf_elem py th (data x ! i)))"
  using approx_cdf_fp_tab [of py th "shape x" "\<lambda>i. data x ! i"] tensor_as_tab [OF assms]
  by simp

lemma rnd_mono: "arith_ok A \<Longrightarrow> x \<le> y \<Longrightarrow> rnd A x \<le> rnd A y"
  by (simp add: arith_ok_def)

lemma rnd_minus: "arith_ok A \<Longrightarrow> rnd A (- x) = - rnd A x"
  by (simp add: arith_ok_def)

lemma rnd_0: "arith_ok A \<Longrightarrow> rnd A 0 = 0"
  using rnd_minus [of A 0] by simp

lemma rnd_pow2: "arith_ok A \<Longrightarrow> k \<le> 40 \<Longrightarrow> rnd A (2 ^ k) = 2 ^ k"
  by (simp add: arith_ok_def)

lemma rnd_inv_pow2: "arith_ok A \<Longrightarrow> k \<le> 40 \<Longrightarrow> rnd A (1 / 2 ^ k) = 1 / 2 ^ k"
  by (simp add: arith_ok_def)

lemma rnd_1: "arith_ok A \<Longrightarrow> rnd A 1 = 1"
  using rnd_pow2 [of A 0] by simp

lemma rnd_2: "arith_ok A \<Longrightarrow> rnd A 2 = 2"
  using rnd_pow2 [of A 1] by simp

lemma rnd_4: "arith_ok A \<Longrightarrow> rnd A 4 = 4"
  using rnd_pow2 [of A 2] by simp

lemma rnd_half: "arith_ok A \<Longrightarrow> rnd A (1 / 2) = 1 / 2"
  using rnd_inv_pow2 [of A 1] by simp

lemma rnd_neg1: "arith_ok A \<Longrightarrow> rnd A (- 1) = - 1"
  by (simp add: rnd_minus rnd_1)

lemma fmax_ge_4: "arith_ok A \<Longrightarrow> 4 \<le> fmax A"
  by (simp add: arith_ok_def)

lemma rnd_between:
  assumes "arith_ok A" "rnd A a = a" "rnd A b = b" "a \<le> x" "x \<le> b"
  shows "a \<le> rnd A x \<and> rnd A x \<le> b"
  using rnd_mono [OF assms(1) assms(4)] rnd_mono [OF assms(1) assms(5)] assms(2,3) by simp

lemma fl_Fin:
  assumes "- fmax A \<le> rnd A x" "rnd A x \<le> fmax A"
  shows "fl A x = Fin (rnd A x)"
  using assms by (simp add: fl_def)

lemma fl_small:
  assumes ok: "arith_ok A" and x: "- 4 \<le> x" "x \<le> 4"
  shows "fl A x = Fin (rnd A x)"
proof -
  have "rnd A (- 4) = - 4" using rnd_minus [OF ok, of 4] rnd_4 [OF ok] by simp
  from rnd_between [OF ok this rnd_4 [OF ok] x] fmax_ge_4 [OF ok]
  show ?thesis by (intro fl_Fin) simp_all
qed

lemma const_half:
  assumes "arith_ok py" "arith_ok th"
  shows "to_elem th (py_lit py (1 / 2)) = Fin (1 / 2)"
  using assms by (simp add: py_lit_def rnd_half fl_small)

lemma const_one:
  assumes "arith_ok py" "arith_ok th"
  shows "to_elem th (py_lit py 1) = Fin 1"
  using assms by (simp add: py_lit_def rnd_1 fl_small)

lemma floor12_Fin:
  assumes py: "arith_ok py" and th: "arith_ok th"
  shows "\<exists>c. floor12 py th = Fin c \<and> c = rnd th (rnd py (1 / 10 ^ 12)) \<and> 0 < c \<and> c \<le> 1"
proof -
  have lo: "(1 :: real) / 2 ^ 40 \<le> 1 / 10 ^ 12" by simp
  have hi: "(1 :: real) / 10 ^ 12 \<le> 1" by simp
  from rnd_between [OF py rnd_inv_pow2 [OF py, of 40] rnd_1 [OF py] lo hi]
  have p: "1 / 2 ^ 40 \<le> rnd py (1 / 10 ^ 12)" "rnd py (1 / 10 ^ 12) \<le> 1" by simp_all
  from rnd_between [OF th rnd_inv_pow2 [OF th, of 40] rnd_1 [OF th] p]
  have t: "1 / 2 ^ 40 \<le> rnd th (rnd py (1 / 10 ^ 12))" "rnd th (rnd py (1 / 10 ^ 12)) \<le> 1"
    by simp_all
  have "fl th (rnd py (1 / 10 ^ 12)) = Fin (rnd th (rnd py (1 / 10 ^ 12)))"
    using p by (intro fl_small [OF th]) simp_all
  moreover have "(0 :: real) < 1 / 2 ^ 40" by simp
  ultimately show ?thesis using t by (simp add: floor12_def py_lit_def)
qed

lemma ftanh_range:
  assumes "arith_ok th"
  shows "ftanh th a = NaN \<or> (\<exists>r. ftanh th a = Fin r \<and> - 1 \<le> r \<and> r \<le> 1)"
  using assms by (cases a) (simp_all add: arith_ok_def)

lemma ftanh_not_NaN:
  assumes "arith_ok th" "a \<noteq> NaN"
  shows "\<exists>r. ftanh th a = Fin r \<and> - 1 \<le> r \<and> r \<le> 1"
  using assms by (cases a) (simp_all add: arith_ok_def)

lemma half_one_plus:
  assumes py: "arith_ok py" and th: "arith_ok th" and r: "- 1 \<le> r" "r \<le> 1"
  shows "\<exists>u. fmul th (to_elem th (py_lit py 0.5)) (fadd th (to_elem th (py_lit py 1.0)) (Fin r))
             = Fin u \<and> 0 \<le> u \<and> u \<le> 1"
proof -
  have s: "0 \<le> 1 + r" "1 + r \<le> 2" using r by simp_all
  from rnd_between [OF th rnd_0 [OF th] rnd_2 [OF th] s]
  have a: "0 \<le> rnd th (1 + r)" "rnd th (1 + r) \<le> 2" by simp_all
  have f1: "fl th (1 + r) = Fin (rnd th (1 + r))"
    using s by (intro fl_small [OF th]) simp_all
  have h: "0 \<le> rnd th (1 + r) / 2" "rnd th (1 + r) / 2 \<le> 1" using a by simp_all
  from rnd_between [OF th rnd_0 [OF th] rnd_1 [OF th] h]
  have b: "0 \<le> rnd th (rnd th (1 + r) / 2)" "rnd th (rnd th (1 + r) / 2) \<le> 1"
    by simp_all
  have f2: "fl th (rnd th (1 + r) / 2) = Fin (rnd th (rnd th (1 + r) / 2))"
    using h by (intro fl_small [OF th]) simp_all
  show ?thesis
    using b by (simp add: const_half [OF py th] const_one [OF py th] f1 f2)
qed

lemma cdf_elem_range:
  assumes py: "arith_ok py" and th: "arith_ok th"
  shows "unit_or_nan (cdf_elem py th v)"
proof -
  let ?t = "ftanh th (fmul th (to_elem th (sqrt_2_over_pi py))
              (fadd th v (fmul th (to_elem th (py_lit py 0.044715)) (fmul th (fmul th v v) v))))"
  from ftanh_range [OF th, of "fmul th (to_elem th (sqrt_2_over_pi py))
              (fadd th v (fmul th (to_elem th (py_lit py 0.044715)) (fmul th (fmul th v v) v)))"]
  consider "?t = NaN" | r where "?t = Fin r" "- 1 \<le> r" "r \<le> 1" by blast
  then show ?thesis
  proof cases
    case 1
    then show ?thesis
      by (simp add: cdf_elem_def unit_or_nan_def const_half [OF py th] const_one [OF py th])
  next
    case 2
    from half_one_plus [OF py th 2(2,3)] 2(1) show ?thesis
      by (simp add: cdf_elem_def unit_or_nan_def)
  qed
qed

lemma lib_log_mono: "arith_ok A \<Longrightarrow> 0 < x \<Longrightarrow> x \<le> y \<Longrightarrow> lib_log A x \<le> lib_log A y"
  unfolding arith_ok_def by blast

lemma lib_log_1: "arith_ok A \<Longrightarrow> lib_log A 1 = 0"
  by (simp add: arith_ok_def)

lemma log_clamp_range:
  assumes py: "arith_ok py" and th: "arith_ok th"
    and w: "w = NaN \<or> (\<exists>y. w = Fin y \<and> y \<le> 1)"
  shows "log_ok py th (flog th (fclamp_min (floor12 py th) w))"
proof -
  from floor12_Fin [OF py th] obtain c where c: "floor12 py th = Fin c"
    "c = rnd th (rnd py (1 / 10 ^ 12))" "0 < c" "c \<le> 1" by blast
  from w show ?thesis
  proof
    assume "w = NaN"
    then show ?thesis by (simp add: log_ok_def)
  next
    assume "\<exists>y. w = Fin y \<and> y \<le> 1"
    then obtain y where y: "w = Fin y" "y \<le> 1" by blast
    define y' where "y' = (if y < c then c else y)"
    have cl: "fclamp_min (floor12 py th) w = Fin y'" using c(1) y(1) by (simp add: y'_def)
    have b: "c \<le> y'" "y' \<le> 1" "0 < y'" using c(3,4) y(2) by (auto simp: y'_def)
    have "lib_log th c \<le> lib_log th y'" by (rule lib_log_mono [OF th c(3) b(1)])
    moreover have "lib_log th y' \<le> lib_log th 1" by (rule lib_log_mono [OF th b(3) b(2)])
    moreover have "lib_log th 1 = 0" by (rule lib_log_1 [OF th])
    ultimately show ?thesis using cl b(3) c(2) by (simp add: log_ok_def log_floor_def)
  qed
qed

lemma fsub_unit:
  assumes th: "arith_ok th" and a: "unit_or_nan a" and b: "unit_or_nan b"
  shows "fsub th a b = NaN \<or> (\<exists>y. fsub th a b = Fin y \<and> 0 - 1 \<le> y \<and> y \<le> 1)"
proof (cases "a = NaN \<or> b = NaN")
  case True
  then show ?thesis by (cases a; cases b) (auto simp: fsub_def)
next
  case False
  with a b obtain p q where pq: "a = Fin p" "0 \<le> p" "p \<le> 1" "b = Fin q" "0 \<le> q" "q \<le> 1"
    by (auto simp: unit_or_nan_def)
  have r: "- 1 \<le> p - q" "p - q \<le> 1" using pq by simp_all
  from rnd_between [OF th rnd_neg1 [OF th] rnd_1 [OF th] r]
  have "- 1 \<le> rnd th (p - q)" "rnd th (p - q) \<le> 1" by simp_all
  moreover have "fl th (p - q) = Fin (rnd th (p - q))"
    using r by (intro fl_small [OF th]) simp_all
  ultimately show ?thesis using pq by (simp add: fsub_def)
qed

lemma fsub_one_unit:
  assumes py: "arith_ok py" and th: "arith_ok th" and b: "unit_or_nan b"
  shows "fsub th (to_elem th (py_lit py 1.0)) b = NaN
       \<or> (\<exists>y. fsub th (to_elem th (py_lit py 1.0)) b = Fin y \<and> y \<le> 1)"
proof -
  have "unit_or_nan (Fin 1)" by (simp add: unit_or_nan_def)
  from fsub_unit [OF th this b] show ?thesis
    by (simp add: const_one [OF py th]) blast
qed

lemma dgll_elem_range:
  assumes py: "arith_ok py" and th: "arith_ok th"
  shows "log_ok py th (dgll_elem py th x m l)"
proof -
  let ?k = "to_elem th (one_over_255 py)"
  let ?cp = "cdf_elem py th (fmul th (fexp th (fneg l)) (fadd th (fsub th x m) ?k))"
  let ?cm = "cdf_elem py th (fmul th (fexp th (fneg l)) (fsub th (fsub th x m) ?k))"
  have up: "unit_or_nan ?cp" and um: "unit_or_nan ?cm"
    by (rule cdf_elem_range [OF py th])+
  have a: "log_ok py th (flog th (fclamp_min (floor12 py th) ?cp))"
    using up by (intro log_clamp_range [OF py th]) (auto simp: unit_or_nan_def)
  have b: "log_ok py th (flog th (fclamp_min (floor12 py th)
             (fsub th (to_elem th (py_lit py 1.0)) ?cm)))"
    using fsub_one_unit [OF py th um] by (intro log_clamp_range [OF py th])
  have c: "log_ok py th (flog th (fclamp_min (floor12 py th) (fsub th ?cp ?cm)))"
    using fsub_unit [OF th up um] by (intro log_clamp_range [OF py th]) blast
  from a b c show ?thesis
    unfolding dgll_elem_def Let_def by (simp only: if_split) blast
qed

lemma fmul_NaN_right: "fmul A a NaN = NaN"
  by (cases a) simp_all

lemma fadd_NaN_right: "fadd A a NaN = NaN"
  by (cases a) simp_all

lemma cdf_elem_NaN: "cdf_elem py th NaN = NaN"
  by (simp add: cdf_elem_def fmul_NaN_right fadd_NaN_right)

lemma exp_100_overflow: "(2 - 1 / 2 ^ 23) * 2 ^ 127 < exp (100 :: real)"
proof -
  have "(5 / 2 :: real) \<le> exp 1"
    using exp_lower_Taylor_quadratic [of "1 :: real"] by simp
  then have "(5 / 2 :: real) ^ 100 \<le> exp 1 ^ 100"
    by (intro power_mono) simp_all
  also have "exp (1 :: real) ^ 100 = exp 100"
    using exp_of_nat_mult [of 100 "1 :: real"] by simp
  finally have "(5 / 2 :: real) ^ 100 \<le> exp 100" .
  moreover have "(2 - 1 / 2 ^ 23) * 2 ^ 127 < (5 / 2 :: real) ^ 100"
    by (simp add: power_divide)
  ultimately show ?thesis by linarith
qed

lemma tab_single: "\<lparr>shape = [1], data = [v]\<rparr> = tab [1] (\<lambda>i. v)"
  by (simp add: tab_def numel_def upt_1)

lemma fexp_100_exact32: "fexp exact32 (Fin 100) = PInf"
  using exp_100_overflow by (simp add: exact32_def)

lemma dgll_elem_nan_plus:
  "dgll_elem exact64 exact32 (Fin 0) (Fin (1 / 255)) (Fin (- 100)) = NaN"
proof -
  have k: "to_elem exact32 (one_over_255 exact64) = Fin (1 / 255)"
    by (simp add: one_over_255_def exact64_def exact32_def fl_def)
  have c: "fsub exact32 (Fin 0) (Fin (1 / 255)) = Fin (- (1 / 255))"
    by (simp add: fsub_def fl_def exact32_def)
  have z: "fadd exact32 (Fin (- (1 / 255))) (Fin (1 / 255)) = Fin 0"
    by (simp add: fl_def exact32_def)
  have cp: "cdf_elem exact64 exact32
              (fmul exact32 (fexp exact32 (fneg (Fin (- 100))))
                 (fadd exact32 (fsub exact32 (Fin 0) (Fin (1 / 255)))
                    (to_elem exact32 (one_over_255 exact64)))) = NaN"
  proof -
    have inv: "fexp exact32 (fneg (Fin (- 100))) = PInf"
      using exp_100_overflow by (simp add: exact32_def)
    show ?thesis
      by (simp only: k c z inv fmul.simps simp_thms if_True cdf_elem_NaN)
  qed
  have lt: "\<not> flt (Fin 0) (to_elem exact32 (fneg (py_lit exact64 0.999)))"
    "\<not> flt (to_elem exact32 (py_lit exact64 0.999)) (Fin 0)"
    by (simp_all add: py_lit_def exact64_def exact32_def fl_def)
  show ?thesis
    unfolding dgll_elem_def Let_def
    by (simp only: lt if_False cp) (simp add: fsub_def)
qed

lemma wf_single: "wf_tensor \<lparr>shape = [1], data = [v]\<rparr>"
  by (simp add: wf_tensor_def numel_def)

lemma dgll_fp_single:
  "discretized_gaussian_log_likelihood_fp py th \<lparr>shape = [1], data = [x]\<rparr>
     \<lparr>shape = [1], data = [m]\<rparr> \<lparr>shape = [1], data = [l]\<rparr>
   = Inr \<lparr>shape = [1], data = [dgll_elem py th x m l]\<rparr>"
  by (simp only: tab_single dgll_fp_tab)

lemma dgll_elem_nan_minus:
  "dgll_elem exact64 exact32 (Fin 0) (Fin (- (1 / 255))) (Fin (- 100)) = NaN"
proof -
  have k: "to_elem exact32 (one_over_255 exact64) = Fin (1 / 255)"
    by (simp add: one_over_255_def exact64_def exact32_def fl_def)
  have c: "fsub exact32 (Fin 0) (Fin (- (1 / 255))) = Fin (1 / 255)"
    by (simp add: fsub_def fl_def exact32_def)
  have z: "fsub exact32 (Fin (1 / 255)) (Fin (1 / 255)) = Fin 0"
    by (simp add: fsub_def fl_def exact32_def)
  have cm: "cdf_elem exact64 exact32
              (fmul exact32 (fexp exact32 (fneg (Fin (- 100))))
                 (fsub exact32 (fsub exact32 (Fin 0) (Fin (- (1 / 255))))
                    (to_elem exact32 (one_over_255 exact64)))) = NaN"
  proof -
    have inv: "fexp exact32 (fneg (Fin (- 100))) = PInf"
      using exp_100_overflow by (simp add: exact32_def)
    show ?thesis
      by (simp only: k c z inv fmul.simps simp_thms if_True cdf_elem_NaN)
  qed
  have lt: "\<not> flt (Fin 0) (to_elem exact32 (fneg (py_lit exact64 0.999)))"
    "\<not> flt (to_elem exact32 (py_lit exact64 0.999)) (Fin 0)"
    by (simp_all add: py_lit_def exact64_def exact32_def fl_def)
  show ?thesis
    unfolding dgll_elem_def Let_def
    by (simp only: lt if_False cm) (simp add: fsub_def fadd_NaN_right)
qed

lemma tensor_binop_single:
  "tensor_binop f \<lparr>shape = [1], data = [a]\<rparr> \<lparr>shape = [1], data = [b]\<rparr>
     = Inr \<lparr>shape = [1], data = [f a b]\<rparr>"
  by (simp only: tab_single tensor_binop_tab)

lemma tensor_map_single:
  "tensor_map f \<lparr>shape = [1], data = [a]\<rparr> = \<lparr>shape = [1], data = [f a]\<rparr>"
  by (simp add: tensor_map_def)

lemma not_NaN_sign: "v \<noteq> NaN \<Longrightarrow> fnonneg v \<or> fnonpos v"
  by (cases v) (auto simp: fnonneg_def fnonpos_def)

lemma sign_not_NaN: "fnonneg v \<or> fnonpos v \<Longrightarrow> v \<noteq> NaN"
  by (auto simp: fnonneg_def fnonpos_def)

lemma fmax_pos: "arith_ok A \<Longrightarrow> 0 < fmax A"
  using fmax_ge_4 [of A] by simp

lemma fl_nonneg:
  assumes ok: "arith_ok A" and x: "0 \<le> x"
  shows "fnonneg (fl A x)"
proof -
  have "0 \<le> rnd A x" using rnd_mono [OF ok x] rnd_0 [OF ok] by simp
  then show ?thesis using fmax_pos [OF ok] by (simp add: fl_def fnonneg_def)
qed

lemma fl_nonpos:
  assumes ok: "arith_ok A" and x: "x \<le> 0"
  shows "fnonpos (fl A x)"
proof -
  have "rnd A x \<le> 0" using rnd_mono [OF ok x] rnd_0 [OF ok] by simp
  then show ?thesis using fmax_pos [OF ok] by (simp add: fl_def fnonpos_def)
qed

lemma fl_PInf_pos:
  assumes ok: "arith_ok A" and inf: "fl A x = PInf"
  shows "0 < x"
proof (rule ccontr)
  assume "\<not> 0 < x"
  then have "x \<le> 0" by simp
  from fl_nonpos [OF ok this] inf show False by (simp add: fnonpos_def)
qed

lemma fl_cases: "fl A x = PInf \<or> fl A x = NInf \<or> fl A x = Fin (rnd A x)"
  by (simp add: fl_def)

lemma fpow3_nonneg:
  assumes ok: "arith_ok A" and v: "fnonneg v"
  shows "fnonneg (fmul A (fmul A v v) v)"
proof (cases v)
  case (Fin x)
  with v have x: "0 \<le> x" by (simp add: fnonneg_def)
  from fl_nonneg [OF ok, of "x * x"] x have sq: "fnonneg (fl A (x * x))" by simp
  then consider "fl A (x * x) = PInf" | y where "fl A (x * x) = Fin y" "0 \<le> y"
    by (auto simp: fnonneg_def)
  then show ?thesis
  proof cases
    case 1
    from fl_PInf_pos [OF ok 1] x have "0 < x" by (cases "x = 0") auto
    with 1 Fin show ?thesis by (simp add: fnonneg_def)
  next
    case 2
    from fl_nonneg [OF ok, of "y * x"] 2(2) x have "fnonneg (fl A (y * x))" by simp
    with 2 Fin show ?thesis by simp
  qed
next
  case PInf
  then show ?thesis by (simp add: fnonneg_def)
next
  case NInf
  with v show ?thesis by (simp add: fnonneg_def)
next
  case NaN
  with v show ?thesis by (simp add: fnonneg_def)
qed

lemma fpow3_nonpos:
  assumes ok: "arith_ok A" and v: "fnonpos v"
  shows "fnonpos (fmul A (fmul A v v) v)"
proof (cases v)
  case (Fin x)
  with v have x: "x \<le> 0" by (simp add: fnonpos_def)
  have "0 \<le> x * x" by simp
  from fl_nonneg [OF ok this] have sq: "fnonneg (fl A (x * x))" .
  then consider "fl A (x * x) = PInf" | y where "fl A (x * x) = Fin y" "0 \<le> y"
    by (auto simp: fnonneg_def)
  then show ?thesis
  proof cases
    case 1
    from fl_PInf_pos [OF ok 1] x have "x < 0" by (cases "x = 0") auto
    with 1 Fin show ?thesis by (simp add: fnonpos_def)
  next
    case 2
    have "y * x \<le> 0" using 2(2) x by (simp add: mult_nonneg_nonpos)
    from fl_nonpos [OF ok this] 2 Fin show ?thesis by simp
  qed
next
  case PInf
  with v show ?thesis by (simp add: fnonpos_def)
next
  case NInf
  then show ?thesis by (simp add: fnonpos_def)
next
  case NaN
  with v show ?thesis by (simp add: fnonpos_def)
qed

lemma fmul_pos_nonneg:
  assumes ok: "arith_ok A" and k: "0 < k" and w: "fnonneg w"
  shows "fnonneg (fmul A (Fin k) w)"
proof -
  from w consider "w = PInf" | y where "w = Fin y" "0 \<le> y" by (auto simp: fnonneg_def)
  then show ?thesis
  proof cases
    case 1
    with k show ?thesis by (simp add: fnonneg_def)
  next
    case 2
    have "0 \<le> k * y" using k 2(2) by simp
    from fl_nonneg [OF ok this] 2 show ?thesis by simp
  qed
qed

lemma fmul_pos_nonpos:
  assumes ok: "arith_ok A" and k: "0 < k" and w: "fnonpos w"
  shows "fnonpos (fmul A (Fin k) w)"
proof -
  from w consider "w = NInf" | y where "w = Fin y" "y \<le> 0" by (auto simp: fnonpos_def)
  then show ?thesis
  proof cases
    case 1
    with k show ?thesis by (simp add: fnonpos_def)
  next
    case 2
    have "k * y \<le> 0" using k 2(2) by (simp add: mult_nonneg_nonpos)
    from fl_nonpos [OF ok this] 2 show ?thesis by simp
  qed
qed

lemma fadd_nonneg:
  assumes ok: "arith_ok A" and a: "fnonneg a" and b: "fnonneg b"
  shows "fnonneg (fadd A a b)"
proof (cases a)
  case fa: (Fin x)
  show ?thesis
  proof (cases b)
    case (Fin y)
    with fa a b have "0 \<le> x + y" by (simp add: fnonneg_def)
    from fl_nonneg [OF ok this] fa Fin show ?thesis by simp
  qed (use fa b in \<open>simp_all add: fnonneg_def\<close>)
next
  case PInf
  with b show ?thesis by (cases b) (simp_all add: fnonneg_def)
qed (use a in \<open>simp_all add: fnonneg_def\<close>)

lemma fadd_nonpos:
  assumes ok: "arith_ok A" and a: "fnonpos a" and b: "fnonpos b"
  shows "fnonpos (fadd A a b)"
proof (cases a)
  case fa: (Fin x)
  show ?thesis
  proof (cases b)
    case (Fin y)
    with fa a b have "x + y \<le> 0" by (simp add: fnonpos_def)
    from fl_nonpos [OF ok this] fa Fin show ?thesis by simp
  qed (use fa b in \<open>simp_all add: fnonpos_def\<close>)
next
  case NInf
  with b show ?thesis by (cases b) (simp_all add: fnonpos_def)
qed (use a in \<open>simp_all add: fnonpos_def\<close>)

lemma const_cubic:
  assumes py: "arith_ok py" and th: "arith_ok th"
  shows "\<exists>k. to_elem th (py_lit py 0.044715) = Fin k \<and> 0 < k"
proof -
  have b: "(1 :: real) / 2 ^ 5 \<le> 0.044715" "(0.044715 :: real) \<le> 1" by simp_all
  from rnd_between [OF py rnd_inv_pow2 [OF py, of 5] rnd_1 [OF py] b]
  have p: "1 / 2 ^ 5 \<le> rnd py 0.044715" "rnd py 0.044715 \<le> 1" by simp_all
  from rnd_between [OF th rnd_inv_pow2 [OF th, of 5] rnd_1 [OF th] p]
  have t: "1 / 2 ^ 5 \<le> rnd th (rnd py 0.044715)" by simp
  have "fl th (rnd py 0.044715) = Fin (rnd th (rnd py 0.044715))"
    using p by (intro fl_small [OF th]) simp_all
  moreover have "(0 :: real) < 1 / 2 ^ 5" by simp
  ultimately show ?thesis using t unfolding py_lit_def to_elem.simps by force
qed

lemma const_sqrt:
  assumes py: "arith_ok py" and th: "arith_ok th"
  shows "\<exists>k. to_elem th (sqrt_2_over_pi py) = Fin k \<and> 0 < k"
proof -
  have "2 \<le> pi" "pi \<le> 4" using pi_ge_two pi_less_4 by simp_all
  from rnd_between [OF py rnd_2 [OF py] rnd_4 [OF py] this]
  have pp: "2 \<le> rnd py pi" "rnd py pi \<le> 4" by simp_all
  have q: "1 / 2 \<le> rnd py 2 / rnd py pi" "rnd py 2 / rnd py pi \<le> 1"
    using pp by (simp_all add: rnd_2 [OF py] field_simps)
  from rnd_between [OF py rnd_half [OF py] rnd_1 [OF py] q]
  have rq: "1 / 2 \<le> rnd py (rnd py 2 / rnd py pi)" "rnd py (rnd py 2 / rnd py pi) \<le> 1"
    by simp_all
  have s1: "1 / 2 \<le> sqrt (rnd py (rnd py 2 / rnd py pi))"
    using rq(1) by (intro real_le_rsqrt) (simp add: power2_eq_square)
  have s2: "sqrt (rnd py (rnd py 2 / rnd py pi)) \<le> 1"
    using rq(2) by simp
  from rnd_between [OF py rnd_half [OF py] rnd_1 [OF py] s1 s2]
  have r: "1 / 2 \<le> rnd py (sqrt (rnd py (rnd py 2 / rnd py pi)))"
    "rnd py (sqrt (rnd py (rnd py 2 / rnd py pi))) \<le> 1" by simp_all
  from rnd_between [OF th rnd_half [OF th] rnd_1 [OF th] r]
  have t: "1 / 2 \<le> rnd th (rnd py (sqrt (rnd py (rnd py 2 / rnd py pi))))" by simp
  have "fl th (rnd py (sqrt (rnd py (rnd py 2 / rnd py pi))))
        = Fin (rnd th (rnd py (sqrt (rnd py (rnd py 2 / rnd py pi)))))"
    using r by (intro fl_small [OF th]) simp_all
  then show ?thesis using t unfolding sqrt_2_over_pi_def to_elem.simps by force
qed

lemma cdf_elem_not_NaN:
  assumes py: "arith_ok py" and th: "arith_ok th" and v: "v \<noteq> NaN"
  shows "\<exists>u. cdf_elem py th v = Fin u \<and> 0 \<le> u \<and> u \<le> 1"
proof -
  from const_cubic [OF py th] obtain k where k: "to_elem th (py_lit py 0.044715) = Fin k" "0 < k"
    by blast
  from const_sqrt [OF py th] obtain c where c: "to_elem th (sqrt_2_over_pi py) = Fin c" "0 < c"
    by blast
  let ?q = "fmul th (Fin c) (fadd th v (fmul th (Fin k) (fmul th (fmul th v v) v)))"
  have "fnonneg ?q \<or> fnonpos ?q"
    using not_NaN_sign [OF v]
  proof
    assume n: "fnonneg v"
    have "fnonneg ?q"
      by (intro fmul_pos_nonneg [OF th c(2)] fadd_nonneg [OF th n]
          fmul_pos_nonneg [OF th k(2)] fpow3_nonneg [OF th n])
    then show ?thesis ..
  next
    assume n: "fnonpos v"
    have "fnonpos ?q"
      by (intro fmul_pos_nonpos [OF th c(2)] fadd_nonpos [OF th n]
          fmul_pos_nonpos [OF th k(2)] fpow3_nonpos [OF th n])
    then show ?thesis ..
  qed
  then have "?q \<noteq> NaN" by (rule sign_not_NaN)
  from ftanh_not_NaN [OF th this] obtain r where r: "ftanh th ?q = Fin r" "- 1 \<le> r" "r \<le> 1"
    by blast
  from half_one_plus [OF py th r(2,3)] r(1) show ?thesis
    unfolding cdf_elem_def k(1) c(1) by simp
qed

lemma is_fin_iff: "is_fin v \<longleftrightarrow> (\<exists>x. v = Fin x)"
  by (cases v) simp_all

lemma log_clamp_Fin:
  assumes py: "arith_ok py" and th: "arith_ok th" and y: "y \<le> 1"
  shows "\<exists>z. flog th (fclamp_min (floor12 py th) (Fin y)) = Fin z"
  using log_clamp_range [OF py th, of "Fin y"] y
proof -
  from floor12_Fin [OF py th] obtain c where c: "floor12 py th = Fin c" "0 < c" by blast
  show ?thesis using c by (cases "y < c") auto
qed

lemma fsub_unit_Fin:
  assumes th: "arith_ok th" and p: "0 \<le> p" "p \<le> 1" and q: "0 \<le> q" "q \<le> 1"
  shows "\<exists>y. fsub th (Fin p) (Fin q) = Fin y \<and> y \<le> 1"
proof -
  have "unit_or_nan (Fin p)" "unit_or_nan (Fin q)" using p q by (simp_all add: unit_or_nan_def)
  from fsub_unit [OF th this] show ?thesis by (auto simp: fsub_def fl_def split: if_splits)
qed

lemma fmul_Fin_not_NaN: "fmul A (Fin a) (Fin b) \<noteq> NaN"
  by (simp add: fl_def)

lemma dgll_elem_finite:
  assumes py: "arith_ok py" and th: "arith_ok th"
    and i: "is_fin (fexp th (fneg l))"
    and p: "is_fin (fadd th (fsub th x m) (to_elem th (one_over_255 py)))"
    and q: "is_fin (fsub th (fsub th x m) (to_elem th (one_over_255 py)))"
  shows "is_fin (dgll_elem py th x m l)"
proof -
  from i p q obtain iv pv qv where v: "fexp th (fneg l) = Fin iv"
    "fadd th (fsub th x m) (to_elem th (one_over_255 py)) = Fin pv"
    "fsub th (fsub th x m) (to_elem th (one_over_255 py)) = Fin qv"
    by (auto simp: is_fin_iff)
  from cdf_elem_not_NaN [OF py th fmul_Fin_not_NaN [of th iv pv]]
  obtain u where u: "cdf_elem py th (fmul th (Fin iv) (Fin pv)) = Fin u" "0 \<le> u" "u \<le> 1"
    by blast
  from cdf_elem_not_NaN [OF py th fmul_Fin_not_NaN [of th iv qv]]
  obtain w where w: "cdf_elem py th (fmul th (Fin iv) (Fin qv)) = Fin w" "0 \<le> w" "w \<le> 1"
    by blast
  have one: "to_elem th (py_lit py 1.0) = Fin 1" using const_one [OF py th] by simp
  have "(1 :: real) \<le> 1" "(0 :: real) \<le> 1" by simp_all
  from fsub_unit_Fin [OF th \<open>0 \<le> 1\<close> \<open>1 \<le> 1\<close> w(2,3)]
  obtain y1 where y1: "fsub th (Fin 1) (Fin w) = Fin y1" "y1 \<le> 1" by blast
  from fsub_unit_Fin [OF th u(2,3) w(2,3)]
  obtain y2 where y2: "fsub th (Fin u) (Fin w) = Fin y2" "y2 \<le> 1" by blast
  from log_clamp_Fin [OF py th u(3)] log_clamp_Fin [OF py th y1(2)] log_clamp_Fin [OF py th y2(2)]
  show ?thesis
    unfolding dgll_elem_def Let_def v u(1) w(1) one y1(1) y2(1)
    by (auto simp: is_fin_iff)
qed

lemma upt_numel_1: "(0 :: nat) < numel [1]"
  by (simp add: numel_def)

lemma approx_cdf_fp_single:
  "approx_standard_normal_cdf_fp py th \<lparr>shape = [1], data = [v]\<rparr>
     = Inr \<lparr>shape = [1], data = [cdf_elem py th v]\<rparr>"
  by (simp only: tab_single approx_cdf_fp_tab)

lemma normal_kl_fp_tab:
  "normal_kl_fp py df th (FpTensor (tab s g1)) (FpTensor (tab s g2)) (FpTensor (tab s g3))
     (FpTensor (tab s g4))
   = Inr (FpTensor (tab s (\<lambda>i. kl_elem py th (g1 i) (g2 i) (g3 i) (g4 i))))"
  unfolding normal_kl_fp_def Let_def kl_elem_def
  by (simp only: find_tensor_fp.simps option.case force_tensor_fp.simps fp_binop.simps
      fp_neg.simps fp_pow2.simps th_exp_fp.simps tensor_binop_tab tensor_map_tab
      rbind_def sum.case)

lemma fl_0: "arith_ok A \<Longrightarrow> fl A 0 = Fin 0"
  using fl_small [of A 0] by (simp add: rnd_0)

lemma fl_neg1: "arith_ok A \<Longrightarrow> fl A (- 1) = Fin (- 1)"
  using fl_small [of A "- 1"] by (simp add: rnd_neg1)

lemma fl_1: "arith_ok A \<Longrightarrow> fl A 1 = Fin 1"
  using fl_small [of A 1] by (simp add: rnd_1)

lemma fexp_0: "arith_ok A \<Longrightarrow> fexp A (Fin 0) = Fin 1"
  using fmax_ge_4 [of A] by (simp add: arith_ok_def)

lemma const_neg_one:
  assumes "arith_ok py" "arith_ok th"
  shows "to_elem th (fneg (py_lit py 1)) = Fin (- 1)"
  using assms by (simp add: py_lit_def rnd_1 fl_neg1)

lemma kl_elem_zero:
  assumes py: "arith_ok py" and th: "arith_ok th"
  shows "kl_elem py th (Fin x) (Fin 0) (Fin x) (Fin 0) = Fin 0"
  unfolding kl_elem_def
  by (simp add: const_neg_one [OF py th] const_half [OF py th] fsub_def fl_0 [OF th]
      fl_neg1 [OF th] fexp_0 [OF th] del: fexp.simps)

lemma normal_kl_fp_zero_logvar:
  assumes py: "arith_ok py" and th: "arith_ok th"
    and wf: "wf_tensor m" "wf_tensor lv" and sh: "shape m = shape lv"
    and fin: "\<forall>v\<in>set (data m). is_fin v" and z: "\<forall>v\<in>set (data lv). v = Fin 0"
  shows "normal_kl_fp py df th (FpTensor m) (FpTensor lv) (FpTensor m) (FpTensor lv)
           = Inr (FpTensor \<lparr>shape = shape m, data = replicate (numel (shape m)) (Fin 0)\<rparr>)"
proof -
  have m: "m = tab (shape m) (\<lambda>i. data m ! i)" and lv: "lv = tab (shape m) (\<lambda>i. data lv ! i)"
    using tensor_as_tab [OF wf(1)] tensor_as_tab [OF wf(2)] sh by simp_all
  have "normal_kl_fp py df th (FpTensor m) (FpTensor lv) (FpTensor m) (FpTensor lv)
        = Inr (FpTensor (tab (shape m)
              (\<lambda>i. kl_elem py th (data m ! i) (data lv ! i) (data m ! i) (data lv ! i))))"
    using normal_kl_fp_tab [of py df th "shape m" "\<lambda>i. data m ! i" "\<lambda>i. data lv ! i"
        "\<lambda>i. data m ! i" "\<lambda>i. data lv ! i"] m lv
    by simp
  also have "tab (shape m)
              (\<lambda>i. kl_elem py th (data m ! i) (data lv ! i) (data m ! i) (data lv ! i))
             = tab (shape m) (\<lambda>i. Fin 0)"
  proof (rule tab_cong)
    fix i assume i: "i < numel (shape m)"
    with wf sh have "data m ! i \<in> set (data m)" "data lv ! i \<in> set (data lv)"
      by (simp_all add: wf_tensor_def)
    with fin z obtain x where "data m ! i = Fin x" "data lv ! i = Fin 0"
      by (auto simp: is_fin_iff)
    then show "kl_elem py th (data m ! i) (data lv ! i) (data m ! i) (data lv ! i) = Fin 0"
      by (simp add: kl_elem_zero [OF py th])
  qed
  also have "tab (shape m) (\<lambda>i. Fin 0)
             = \<lparr>shape = shape m, data = replicate (numel (shape m)) (Fin 0)\<rparr>"
    by (simp add: tab_def map_replicate_const)
  finally show ?thesis .
qed

lemma normal_kl_fp_example:
  assumes py: "arith_ok py" and df: "arith_ok df" and th: "arith_ok th"
  shows "normal_kl_fp py df th (FpFloat (Fin 0)) (FpFloat (Fin 0))
           (FpTensor \<lparr>shape = [1], data = [Fin 0]\<rparr>) (FpFloat (Fin 0))
         = Inr (FpTensor \<lparr>shape = [1], data = [Fin 0]\<rparr>)"
proof -
  have b1: "broadcast_shapes [] [] = Some []" "broadcast_shapes [Suc 0] [] = Some [Suc 0]"
    "broadcast_shapes [] [Suc 0] = Some [Suc 0]"
    by (simp_all add: broadcast_shapes_def)
  show ?thesis
    unfolding normal_kl_fp_def Let_def
    by (simp add: rbind_def tensor_binop_def tensor_map_def b1 expand_to_def numel_def
        const_neg_one [OF py th] const_half [OF py th] fsub_def fl_0 [OF th] fl_0 [OF df]
        fl_neg1 [OF th] fexp_0 [OF th] del: fexp.simps)
qed

text \<open>
  The NaN results below do not depend on how results are rounded: they arise in every
  arithmetic in which \<open>exp 100\<close> overflows, binary32 among them.
\<close>

lemma kl_elem_nan_general:
  assumes th: "arith_ok th" and ovf: "fmax th < lib_exp th 100"
  shows "kl_elem py th (Fin 0) (Fin (- 100)) (Fin 0) (Fin (- 100)) = NaN"
proof -
  have z: "fsub th (Fin 0) (Fin 0) = Fin 0" by (simp add: fsub_def fl_0 [OF th])
  have sq: "fmul th (Fin 0) (Fin 0) = Fin 0" by (simp add: fl_0 [OF th])
  have inv: "fexp th (fneg (Fin (- 100))) = PInf" using ovf by simp
  have g: "fmul th (Fin 0) PInf = NaN" by simp
  show ?thesis
    unfolding kl_elem_def
    by (simp only: z sq inv g fadd_NaN_right fmul_NaN_right)
qed

lemma normal_kl_fp_nan_general:
  assumes th: "arith_ok th" and ovf: "fmax th < lib_exp th 100"
  shows "normal_kl_fp py df th (FpTensor \<lparr>shape = [1], data = [Fin 0]\<rparr>)
     (FpTensor \<lparr>shape = [1], data = [Fin (- 100)]\<rparr>)
     (FpTensor \<lparr>shape = [1], data = [Fin 0]\<rparr>)
     (FpTensor \<lparr>shape = [1], data = [Fin (- 100)]\<rparr>)
   = Inr (FpTensor \<lparr>shape = [1], data = [NaN]\<rparr>)"
  by (simp only: tab_single normal_kl_fp_tab kl_elem_nan_general [OF th ovf])

lemma one_over_255_Fin:
  assumes py: "arith_ok py" and th: "arith_ok th"
  shows "\<exists>k. to_elem th (one_over_255 py) = Fin k
           \<and> k = rnd th (rnd py (rnd py 1 / rnd py 255)) \<and> 0 < k \<and> k \<le> 1"
proof -
  have b: "(2 :: real) ^ 7 \<le> 255" "(255 :: real) \<le> 2 ^ 8" by simp_all
  from rnd_between [OF py rnd_pow2 [OF py, of 7] rnd_pow2 [OF py, of 8] b]
  have p: "2 ^ 7 \<le> rnd py 255" "rnd py 255 \<le> 2 ^ 8" by simp_all
  have q: "1 / 2 ^ 8 \<le> rnd py 1 / rnd py 255" "rnd py 1 / rnd py 255 \<le> 1 / 2 ^ 7"
    using p by (simp_all add: rnd_1 [OF py] field_simps)
  from rnd_between [OF py rnd_inv_pow2 [OF py, of 8] rnd_inv_pow2 [OF py, of 7] q]
  have r: "1 / 2 ^ 8 \<le> rnd py (rnd py 1 / rnd py 255)"
    "rnd py (rnd py 1 / rnd py 255) \<le> 1 / 2 ^ 7" by simp_all
  from rnd_between [OF th rnd_inv_pow2 [OF th, of 8] rnd_inv_pow2 [OF th, of 7] r]
  have t: "1 / 2 ^ 8 \<le> rnd th (rnd py (rnd py 1 / rnd py 255))"
    "rnd th (rnd py (rnd py 1 / rnd py 255)) \<le> 1 / 2 ^ 7" by simp_all
  have "fl th (rnd py (rnd py 1 / rnd py 255)) = Fin (rnd th (rnd py (rnd py 1 / rnd py 255)))"
    using r by (intro fl_small [OF th]) simp_all
  then show ?thesis using t unfolding one_over_255_def to_elem.simps by force
qed

lemma threshold_tests:
  assumes py: "arith_ok py" and th: "arith_ok th"
  shows "\<not> flt (Fin 0) (to_elem th (fneg (py_lit py 0.999)))"
    and "\<not> flt (to_elem th (py_lit py 0.999)) (Fin 0)"
proof -
  have b: "(1 :: real) / 2 \<le> 0.999" "(0.999 :: real) \<le> 1" by simp_all
  from rnd_between [OF py rnd_half [OF py] rnd_1 [OF py] b]
  have p: "1 / 2 \<le> rnd py 0.999" "rnd py 0.999 \<le> 1" by simp_all
  from rnd_between [OF th rnd_half [OF th] rnd_1 [OF th] p]
  have t: "1 / 2 \<le> rnd th (rnd py 0.999)" by simp
  have f1: "fl th (rnd py 0.999) = Fin (rnd th (rnd py 0.999))"
    using p by (intro fl_small [OF th]) simp_all
  have f2: "fl th (- rnd py 0.999) = Fin (rnd th (- rnd py 0.999))"
    using p by (intro fl_small [OF th]) simp_all
  have n: "rnd th (- rnd py 0.999) = - rnd th (rnd py 0.999)" by (rule rnd_minus [OF th])
  show "\<not> flt (Fin 0) (to_elem th (fneg (py_lit py 0.999)))"
    unfolding py_lit_def fneg.simps to_elem.simps f2 n using t by simp
  show "\<not> flt (to_elem th (py_lit py 0.999)) (Fin 0)"
    unfolding py_lit_def to_elem.simps f1 using t by simp
qed

lemma dgll_elem_nan_general:
  assumes py: "arith_ok py" and th: "arith_ok th"
    and idem: "\<forall>x. rnd th (rnd th x) = rnd th x"
    and ovf: "fmax th < lib_exp th 100"
  shows "dgll_elem py th (Fin 0) (to_elem th (one_over_255 py)) (Fin (- 100)) = NaN"
    and "dgll_elem py th (Fin 0) (fneg (to_elem th (one_over_255 py))) (Fin (- 100)) = NaN"
proof -
  from one_over_255_Fin [OF py th] obtain k where k: "to_elem th (one_over_255 py) = Fin k"
    "k = rnd th (rnd py (rnd py 1 / rnd py 255))" "0 < k" "k \<le> 1" by blast
  have rk: "rnd th k = k" using idem k(2) by simp
  have rnk: "rnd th (- k) = - k" using rnd_minus [OF th, of k] rk by simp
  have flk: "fl th k = Fin k" using fl_small [OF th, of k] k(3,4) rk by simp
  have flnk: "fl th (- k) = Fin (- k)" using fl_small [OF th, of "- k"] k(3,4) rnk by simp
  have inv: "fexp th (fneg (Fin (- 100))) = PInf" using ovf by simp
  have c1: "fsub th (Fin 0) (Fin k) = Fin (- k)" by (simp add: fsub_def flnk)
  have z1: "fadd th (Fin (- k)) (Fin k) = Fin 0" by (simp add: fl_0 [OF th])
  have c2: "fsub th (Fin 0) (fneg (Fin k)) = Fin k" by (simp add: fsub_def flk)
  have z2: "fsub th (Fin k) (Fin k) = Fin 0" by (simp add: fsub_def fl_0 [OF th])
  have g: "fmul th PInf (Fin 0) = NaN" by simp
  note lt = threshold_tests [OF py th]
  show "dgll_elem py th (Fin 0) (to_elem th (one_over_255 py)) (Fin (- 100)) = NaN"
    unfolding dgll_elem_def Let_def k(1)
    by (simp only: lt if_False inv c1 z1 g cdf_elem_NaN) (simp add: fsub_def)
  show "dgll_elem py th (Fin 0) (fneg (to_elem th (one_over_255 py))) (Fin (- 100)) = NaN"
    unfolding dgll_elem_def Let_def k(1)
    by (simp only: lt if_False inv c2 z2 g cdf_elem_NaN) (simp add: fsub_def fadd_NaN_right)
qed

section \<open>Claims about \<open>normal_kl\<close>\<close>



text \<open>
  C5: \<open>normal_kl\<close> fails with the assertion error exactly when none of its four
  arguments is a tensor; in particular the call with four floats \<open>0.0\<close> fails with it,
  and a call with at least one tensor argument never raises this error.
\<close>

theorem normal_kl_assertion:
  "(normal_kl mean1 logvar1 mean2 logvar2 = Inl AssertionError \<longleftrightarrow>
      \<not> (is_tensor mean1 \<or> is_tensor logvar1 \<or> is_tensor mean2 \<or> is_tensor logvar2))
   \<and> normal_kl (PyFloat 0.0) (PyFloat 0.0) (PyFloat 0.0) (PyFloat 0.0) = Inl AssertionError"
proof -
  have "normal_kl a b c d = Inl AssertionError \<longleftrightarrow>
          \<not> (is_tensor a \<or> is_tensor b \<or> is_tensor c \<or> is_tensor d)" for a b c d
    by (simp add: normal_kl_assert_iff find_tensor_None_iff)
  then show ?thesis by simp
qed

theorem normal_kl_assertion_witness:
  "is_tensor (PyTensor \<lparr>shape = [1], data = [0]\<rparr>)
   \<and> normal_kl (PyFloat 0) (PyFloat 0) (PyTensor \<lparr>shape = [1], data = [0]\<rparr>) (PyFloat 0)
       \<noteq> Inl AssertionError
   \<and> \<not> is_tensor (PyFloat 0)
   \<and> normal_kl (PyFloat 0) (PyFloat 0) (PyFloat 0) (PyFloat 0) = Inl AssertionError"
  using normal_kl_assertion [of "PyFloat 0" "PyFloat 0" "PyTensor \<lparr>shape = [1], data = [0]\<rparr>"
      "PyFloat 0"]
  by simp

lemma broadcast4_same: "broadcast4 s s s s = Some s"
  by (simp add: broadcast4_def broadcast_shapes_same)

lemma normal_kl_same_args:
  assumes "wf_tensor m" "wf_tensor lv" "shape m = shape lv"
  shows "normal_kl (PyTensor m) (PyTensor lv) (PyTensor m) (PyTensor lv) =
           Inr (PyTensor \<lparr>shape = shape m, data = replicate (numel (shape m)) 0\<rparr>)"
proof -
  have "broadcast4 (pv_shape (PyTensor m)) (pv_shape (PyTensor lv)) (pv_shape (PyTensor m))
          (pv_shape (PyTensor lv)) = Some (shape m)"
    using assms(3) broadcast4_same [of "shape m"] by simp
  from normal_kl_broadcast [OF _ _ _ _ _ this] assms
  show ?thesis by (simp add: kl_formula_same map_replicate_const)
qed

lemma normal_kl_nonneg:
  assumes wf: "pv_wf mean1" "pv_wf logvar1" "pv_wf mean2" "pv_wf logvar2"
    and res: "normal_kl mean1 logvar1 mean2 logvar2 = Inr r"
  shows "\<exists>t. r = PyTensor t \<and> (\<forall>v\<in>set (data t). 0 \<le> v)"
proof -
  from normal_kl_Inr_formula [OF wf res] obtain s where
    "r = PyTensor \<lparr>shape = s,
           data = map (\<lambda>k. kl_formula (pv_at mean1 s k) (pv_at logvar1 s k)
                             (pv_at mean2 s k) (pv_at logvar2 s k)) [0..<numel s]\<rparr>"
    by blast
  then show ?thesis by (auto simp: kl_formula_nonneg)
qed

lemma normal_kl_example2:
  "normal_kl (PyTensor \<lparr>shape = [2], data = [1, 3]\<rparr>) (PyFloat 0) (PyFloat 1)
        (PyTensor \<lparr>shape = [1], data = [0]\<rparr>)
      = Inr (PyTensor \<lparr>shape = [2], data = [0, 2]\<rparr>)"
proof -
  have bc: "broadcast4 [2] [] [] [1] = Some [2]"
    by (simp add: broadcast4_def broadcast_shapes_def)
  then show ?thesis
    using normal_kl_broadcast [of "PyTensor \<lparr>shape = [2], data = [1, 3]\<rparr>" "PyFloat 0"
        "PyFloat 1" "PyTensor \<lparr>shape = [1], data = [0]\<rparr>" "[2]"]
    by (simp add: wf_tensor_def numel_def upt_2 kl_formula_def)
qed

text \<open>
  C7, as the specification states it, fails on floating-point tensors: with the
  range of binary32, \<open>normal_kl m lv m lv\<close> at \<open>m = [0]\<close> and \<open>lv = [-100]\<close> is \<open>[NaN]\<close>,
  since \<open>exp 100\<close> overflows to infinity and is multiplied by the zero \<open>(m - m)\<^sup>2\<close>. The
  result is neither 0 nor non-negative there. Every value met on the way (\<open>-101\<close>,
  \<open>-1\<close>, \<open>0\<close>, \<open>1\<close>) is a binary32 number, and \<open>normal_kl_fp_nan_general\<close> gives the same
  result for every arithmetic in which \<open>exp 100\<close> overflows.
\<close>

theorem normal_kl_fp_nan_counterexample:
  "normal_kl_fp exact64 exact32 exact32 (FpTensor \<lparr>shape = [1], data = [Fin 0]\<rparr>)
     (FpTensor \<lparr>shape = [1], data = [Fin (- 100)]\<rparr>)
     (FpTensor \<lparr>shape = [1], data = [Fin 0]\<rparr>)
     (FpTensor \<lparr>shape = [1], data = [Fin (- 100)]\<rparr>)
   = Inr (FpTensor \<lparr>shape = [1], data = [NaN]\<rparr>)
   \<and> NaN \<noteq> Fin 0 \<and> \<not> flt (Fin 0) NaN"
proof -
  have inv: "fexp exact32 (Fin 100) = PInf"
    using exp_100_overflow by (simp add: exact32_def)
  have one: "fexp exact32 (Fin 0) = Fin 1"
    by (simp add: exact32_def)
  have m1: "to_elem exact32 (fneg (py_lit exact64 1.0)) = Fin (- 1)"
    by (simp add: py_lit_def exact64_def exact32_def fl_def)
  have h: "to_elem exact32 (py_lit exact64 0.5) = Fin (1 / 2)"
    by (simp add: py_lit_def exact64_def exact32_def fl_def)
  have a: "fadd exact32 (Fin (- 1)) (Fin (- 100)) = Fin (- 101)"
    by (simp add: fl_def exact32_def)
  have b: "fsub exact32 (Fin (- 101)) (Fin (- 100)) = Fin (- 1)"
    by (simp add: fsub_def fl_def exact32_def)
  have d: "fsub exact32 (Fin (- 100)) (Fin (- 100)) = Fin 0"
    by (simp add: fsub_def fl_def exact32_def)
  have e: "fadd exact32 (Fin (- 1)) (Fin 1) = Fin 0"
    by (simp add: fl_def exact32_def)
  have m: "fsub exact32 (Fin 0) (Fin 0) = Fin 0" "fmul exact32 (Fin 0) (Fin 0) = Fin 0"
    by (simp_all add: fsub_def fl_def exact32_def)
  have n: "fneg (Fin (- 100)) = Fin 100" by simp
  have g: "fmul exact32 (Fin 0) PInf = NaN" by simp
  have "normal_kl_fp exact64 exact32 exact32 (FpTensor \<lparr>shape = [1], data = [Fin 0]\<rparr>)
     (FpTensor \<lparr>shape = [1], data = [Fin (- 100)]\<rparr>)
     (FpTensor \<lparr>shape = [1], data = [Fin 0]\<rparr>)
     (FpTensor \<lparr>shape = [1], data = [Fin (- 100)]\<rparr>)
   = Inr (FpTensor \<lparr>shape = [1], data = [NaN]\<rparr>)"
    unfolding normal_kl_fp_def Let_def
    by (simp only: find_tensor_fp.simps option.case force_tensor_fp.simps fp_binop.simps
        fp_neg.simps fp_pow2.simps th_exp_fp.simps tensor_binop_single tensor_map_single
        rbind_def sum.case m1 h a b d e m n g inv one fadd_NaN_right fmul_NaN_right)
  then show ?thesis by simp
qed

text \<open>
  C7, amended: on floating-point tensors \<open>m\<close> and \<open>lv\<close> of equal shape,
  \<open>normal_kl m lv m lv\<close> is the zero tensor when every element of \<open>lv\<close> is 0 and every
  element of \<open>m\<close> is finite, and \<open>normal_kl 0 0 (tensor [0]) 0\<close> is the tensor \<open>[0.0]\<close>.
  In exact real arithmetic \<open>normal_kl m lv m lv\<close> is zero for all well-formed \<open>m\<close> and
  \<open>lv\<close> of equal shape, and every result of \<open>normal_kl\<close> is non-negative at every
  element; the floating-point result is the rounded evaluation of the same
  expression and need not be zero or non-negative.
\<close>

theorem normal_kl_zero_nonneg_amended:
  "(arith_ok py \<and> arith_ok th \<and> wf_tensor fm \<and> wf_tensor flv \<and> shape fm = shape flv
      \<and> (\<forall>v\<in>set (data fm). is_fin v) \<and> (\<forall>v\<in>set (data flv). v = Fin 0) \<longrightarrow>
    normal_kl_fp py df th (FpTensor fm) (FpTensor flv) (FpTensor fm) (FpTensor flv)
      = Inr (FpTensor \<lparr>shape = shape fm, data = replicate (numel (shape fm)) (Fin 0)\<rparr>))
   \<and> (arith_ok py \<and> arith_ok df \<and> arith_ok th \<longrightarrow>
    normal_kl_fp py df th (FpFloat (Fin 0)) (FpFloat (Fin 0))
        (FpTensor \<lparr>shape = [1], data = [Fin 0]\<rparr>) (FpFloat (Fin 0))
      = Inr (FpTensor \<lparr>shape = [1], data = [Fin 0]\<rparr>))
   \<and> (wf_tensor m \<and> wf_tensor lv \<and> shape m = shape lv \<longrightarrow>
      normal_kl (PyTensor m) (PyTensor lv) (PyTensor m) (PyTensor lv) =
        Inr (PyTensor \<lparr>shape = shape m, data = replicate (numel (shape m)) 0\<rparr>))
   \<and> (pv_wf mean1 \<and> pv_wf logvar1 \<and> pv_wf mean2 \<and> pv_wf logvar2
        \<and> normal_kl mean1 logvar1 mean2 logvar2 = Inr r \<longrightarrow>
      (\<exists>t. r = PyTensor t \<and> (\<forall>v\<in>set (data t). 0 \<le> v)))"
  using normal_kl_fp_zero_logvar [where py = py and df = df and th = th and m = fm and lv = flv]
    normal_kl_fp_example [where py = py and df = df and th = th]
    normal_kl_same_args [of m lv] normal_kl_nonneg [of mean1 logvar1 mean2 logvar2 r]
  by blast

theorem normal_kl_zero_nonneg_amended_witness:
  "normal_kl_fp exact64 exact32 exact32 (FpTensor \<lparr>shape = [1], data = [Fin 3]\<rparr>)
        (FpTensor \<lparr>shape = [1], data = [Fin 0]\<rparr>) (FpTensor \<lparr>shape = [1], data = [Fin 3]\<rparr>)
        (FpTensor \<lparr>shape = [1], data = [Fin 0]\<rparr>)
      = Inr (FpTensor \<lparr>shape = [1], data = [Fin 0]\<rparr>)
   \<and> normal_kl_fp exact64 exact32 exact32 (FpFloat (Fin 0)) (FpFloat (Fin 0))
        (FpTensor \<lparr>shape = [1], data = [Fin 0]\<rparr>) (FpFloat (Fin 0))
      = Inr (FpTensor \<lparr>shape = [1], data = [Fin 0]\<rparr>)
   \<and> normal_kl (PyTensor \<lparr>shape = [2], data = [1, 2]\<rparr>) (PyTensor \<lparr>shape = [2], data = [0, 1]\<rparr>)
        (PyTensor \<lparr>shape = [2], data = [1, 2]\<rparr>) (PyTensor \<lparr>shape = [2], data = [0, 1]\<rparr>)
       = Inr (PyTensor \<lparr>shape = [2], data = [0, 0]\<rparr>)
   \<and> normal_kl (PyTensor \<lparr>shape = [2], data = [1, 3]\<rparr>) (PyFloat 0) (PyFloat 1)
        (PyTensor \<lparr>shape = [1], data = [0]\<rparr>)
      = Inr (PyTensor \<lparr>shape = [2], data = [0, 2]\<rparr>)
   \<and> (0 :: real) \<le> 0 \<and> (0 :: real) \<le> 2"
proof -
  have wf: "wf_tensor \<lparr>shape = [2], data = [1, 2 :: real]\<rparr>"
    "wf_tensor \<lparr>shape = [2], data = [0, 1 :: real]\<rparr>"
    "pv_wf (PyTensor \<lparr>shape = [2], data = [1, 3]\<rparr>)"
    "pv_wf (PyTensor \<lparr>shape = [1], data = [0]\<rparr>)"
    by (simp_all add: wf_tensor_def numel_def)
  note ex = normal_kl_example2
  from normal_kl_zero_nonneg_amended [where py = exact64 and df = exact32 and th = exact32
      and fm = "\<lparr>shape = [1], data = [Fin 3]\<rparr>" and flv = "\<lparr>shape = [1], data = [Fin 0]\<rparr>"
      and m = "\<lparr>shape = [2], data = [1, 2]\<rparr>" and lv = "\<lparr>shape = [2], data = [0, 1]\<rparr>"
      and ?mean1.0 = "PyTensor \<lparr>shape = [2], data = [1, 3]\<rparr>" and ?logvar1.0 = "PyFloat 0"
      and ?mean2.0 = "PyFloat 1" and ?logvar2.0 = "PyTensor \<lparr>shape = [1], data = [0]\<rparr>"
      and r = "PyTensor \<lparr>shape = [2], data = [0, 2]\<rparr>"]
    wf ex arith_ok_exact64 arith_ok_exact32 wf_single [of "Fin 3"] wf_single [of "Fin 0"]
  show ?thesis by (simp add: numel_def numeral_2_eq_2)
qed

section \<open>Claims about \<open>approx_standard_normal_cdf\<close>\<close>

text \<open>
  C4: for every well-formed tensor \<open>x\<close>, \<open>approx_standard_normal_cdf x\<close> returns the
  tensor of the shape of \<open>x\<close> whose elements are
  \<open>0.5 * (1 + tanh (sqrt (2 / pi) * (v + 0.044715 * v\<^sup>3)))\<close> for the elements \<open>v\<close> of \<open>x\<close>.
\<close>

theorem approx_cdf_formula:
  assumes "wf_tensor x"
  shows "approx_standard_normal_cdf x =
           Inr \<lparr>shape = shape x,
                data = map (\<lambda>v. 0.5 * (1 + tanh (sqrt (2 / pi) * (v + 0.044715 * v ^ 3))))
                         (data x)\<rparr>"
  using approx_cdf_elementwise [OF assms] by (simp add: tensor_map_def cdf_formula_def)

theorem approx_cdf_formula_witness:
  "wf_tensor \<lparr>shape = [2], data = [0, 1 :: real]\<rparr>
   \<and> approx_standard_normal_cdf \<lparr>shape = [2], data = [0, 1]\<rparr> =
       Inr \<lparr>shape = [2], data = [0.5, 0.5 * (1 + tanh (sqrt (2 / pi) * 1.044715))]\<rparr>"
proof -
  have wf: "wf_tensor \<lparr>shape = [2], data = [0, 1 :: real]\<rparr>"
    by (simp add: wf_tensor_def numel_def)
  from approx_cdf_formula [OF wf] wf show ?thesis by simp
qed

lemma cdf_formula_mono: "a \<le> b \<Longrightarrow> cdf_formula a \<le> cdf_formula b"
proof -
  assume ab: "a \<le> b"
  have "a ^ 3 \<le> b ^ 3" using ab by (intro power_mono_odd) simp_all
  then have "a + 0.044715 * a ^ 3 \<le> b + 0.044715 * b ^ 3" using ab by simp
  then have "sqrt (2 / pi) * (a + 0.044715 * a ^ 3) \<le> sqrt (2 / pi) * (b + 0.044715 * b ^ 3)"
    by (intro mult_left_mono) simp_all
  then show ?thesis by (simp add: cdf_formula_def)
qed

lemma cdf_formula_0: "cdf_formula 0 = 0.5"
  by (simp add: cdf_formula_def)

text \<open>
  C8: \<open>approx_standard_normal_cdf\<close> is monotonically non-decreasing: for well-formed
  tensors \<open>a\<close> and \<open>b\<close> of one shape with \<open>a \<le> b\<close> at every element, both calls
  return, and the result for \<open>a\<close> is at most the result for \<open>b\<close> at every element; and
  at the input 0 the result is 0.5.
\<close>

theorem approx_cdf_monotone:
  "(wf_tensor a \<and> wf_tensor b \<and> shape a = shape b
      \<and> (\<forall>i<numel (shape a). data a ! i \<le> data b ! i) \<longrightarrow>
    (\<exists>ra rb. approx_standard_normal_cdf a = Inr ra \<and> approx_standard_normal_cdf b = Inr rb
       \<and> shape ra = shape a \<and> shape rb = shape a
       \<and> (\<forall>i<numel (shape a). data ra ! i \<le> data rb ! i)))
   \<and> approx_standard_normal_cdf \<lparr>shape = [], data = [0]\<rparr> = Inr \<lparr>shape = [], data = [0.5]\<rparr>"
proof -
  have "\<exists>ra rb. approx_standard_normal_cdf a = Inr ra \<and> approx_standard_normal_cdf b = Inr rb
       \<and> shape ra = shape a \<and> shape rb = shape a
       \<and> (\<forall>i<numel (shape a). data ra ! i \<le> data rb ! i)"
    if wf: "wf_tensor a" "wf_tensor b" and sh: "shape a = shape b"
      and le: "\<forall>i<numel (shape a). data a ! i \<le> data b ! i"
  proof -
    have "data (tensor_map cdf_formula a) ! i \<le> data (tensor_map cdf_formula b) ! i"
      if "i < numel (shape a)" for i
      using that wf sh le by (simp add: tensor_map_def wf_tensor_def cdf_formula_mono)
    then show ?thesis
      using wf sh by (simp add: approx_cdf_elementwise shape_tensor_map)
  qed
  moreover have "approx_standard_normal_cdf \<lparr>shape = [], data = [0]\<rparr>
                 = Inr \<lparr>shape = [], data = [0.5]\<rparr>"
    using approx_cdf_elementwise [of "\<lparr>shape = [], data = [0]\<rparr>"]
    by (simp add: wf_tensor_def numel_def tensor_map_def cdf_formula_0)
  ultimately show ?thesis by blast
qed

theorem approx_cdf_monotone_witness:
  "wf_tensor \<lparr>shape = [2], data = [0, - 1 :: real]\<rparr> \<and> wf_tensor \<lparr>shape = [2], data = [0, 0 :: real]\<rparr>
   \<and> (0 :: real) \<le> 0 \<and> (- 1 :: real) \<le> 0
   \<and> approx_standard_normal_cdf \<lparr>shape = [2], data = [0, - 1]\<rparr>
       = Inr \<lparr>shape = [2], data = [cdf_formula 0, cdf_formula (- 1)]\<rparr>
   \<and> approx_standard_normal_cdf \<lparr>shape = [2], data = [0, 0]\<rparr>
       = Inr \<lparr>shape = [2], data = [cdf_formula 0, cdf_formula 0]\<rparr>
   \<and> cdf_formula 0 \<le> cdf_formula 0 \<and> cdf_formula (- 1) \<le> cdf_formula 0"
proof -
  have wf: "wf_tensor \<lparr>shape = [2], data = [0, - 1 :: real]\<rparr>"
    "wf_tensor \<lparr>shape = [2], data = [0, 0 :: real]\<rparr>"
    by (simp_all add: wf_tensor_def numel_def)
  have le: "\<forall>i<numel [2]. [0, - 1 :: real] ! i \<le> [0, 0] ! i"
    by (simp add: numel_def less_Suc_eq numeral_2_eq_2)
  have ev: "approx_standard_normal_cdf \<lparr>shape = [2], data = [0, - 1]\<rparr>
       = Inr \<lparr>shape = [2], data = [cdf_formula 0, cdf_formula (- 1)]\<rparr>"
    "approx_standard_normal_cdf \<lparr>shape = [2], data = [0, 0]\<rparr>
       = Inr \<lparr>shape = [2], data = [cdf_formula 0, cdf_formula 0]\<rparr>"
    using wf by (simp_all add: approx_cdf_elementwise tensor_map_def)
  from approx_cdf_monotone [of "\<lparr>shape = [2], data = [0, - 1]\<rparr>" "\<lparr>shape = [2], data = [0, 0]\<rparr>"]
    wf le ev
  have "\<forall>i<numel [2]. [cdf_formula 0, cdf_formula (- 1)] ! i \<le> [cdf_formula 0, cdf_formula 0] ! i"
    by simp
  then have "cdf_formula (- 1) \<le> cdf_formula 0"
    by (simp add: numel_def less_Suc_eq numeral_2_eq_2)
  with wf ev show ?thesis by simp
qed

section \<open>Claims about \<open>discretized_gaussian_log_likelihood\<close>\<close>

lemma dgll_shape_mismatch:
  "\<not> (shape x = shape means \<and> shape means = shape log_scales) \<Longrightarrow>
     discretized_gaussian_log_likelihood x means log_scales = Inl AssertionError"
  by (simp add: discretized_gaussian_log_likelihood_def)

text \<open>
  C2: for well-formed tensors \<open>x\<close>, \<open>means\<close>, \<open>log_scales\<close> of one shape,
  \<open>discretized_gaussian_log_likelihood\<close> returns, at every element, in this order of
  priority: \<open>ln (max cdf_plus 1e-12)\<close> if \<open>x < -0.999\<close>, else \<open>ln (max (1 - cdf_min) 1e-12)\<close>
  if \<open>x > 0.999\<close>, else \<open>ln (max (cdf_plus - cdf_min) 1e-12)\<close>, where \<open>cdf_plus\<close> and
  \<open>cdf_min\<close> are the approximate CDF at \<open>exp (- log_scales) * (x - means \<plusminus> 1/255)\<close>;
  in particular \<open>x = -1.0\<close> takes the first branch and \<open>x = 1.0\<close> the second.
\<close>

theorem dgll_selects_branches:
  "(wf_tensor x \<and> wf_tensor means \<and> wf_tensor log_scales
      \<and> shape x = shape means \<and> shape means = shape log_scales \<longrightarrow>
    discretized_gaussian_log_likelihood x means log_scales =
      Inr \<lparr>shape = shape x,
           data = map (\<lambda>i.
              let xi = data x ! i;
                  cdf_plus = cdf_formula (exp (- (data log_scales ! i))
                               * (xi - data means ! i + 1 / 255));
                  cdf_min = cdf_formula (exp (- (data log_scales ! i))
                               * (xi - data means ! i - 1 / 255))
              in if xi < - 0.999 then ln (max cdf_plus (1 / 10 ^ 12))
                 else if xi > 0.999 then ln (max (1 - cdf_min) (1 / 10 ^ 12))
                 else ln (max (cdf_plus - cdf_min) (1 / 10 ^ 12)))
             [0..<numel (shape x)]\<rparr>)
   \<and> discretized_gaussian_log_likelihood \<lparr>shape = [1], data = [- 1.0]\<rparr>
        \<lparr>shape = [1], data = [m]\<rparr> \<lparr>shape = [1], data = [l]\<rparr> =
      Inr \<lparr>shape = [1],
           data = [ln (max (cdf_formula (exp (- l) * (- 1 - m + 1 / 255))) (1 / 10 ^ 12))]\<rparr>
   \<and> discretized_gaussian_log_likelihood \<lparr>shape = [1], data = [1.0]\<rparr>
        \<lparr>shape = [1], data = [m]\<rparr> \<lparr>shape = [1], data = [l]\<rparr> =
      Inr \<lparr>shape = [1],
           data = [ln (max (1 - cdf_formula (exp (- l) * (1 - m - 1 / 255))) (1 / 10 ^ 12))]\<rparr>"
proof -
  have gen: "discretized_gaussian_log_likelihood x means log_scales =
      Inr \<lparr>shape = shape x,
           data = map (\<lambda>i. dgll_formula (data x ! i) (data means ! i) (data log_scales ! i))
                    [0..<numel (shape x)]\<rparr>"
    if "wf_tensor x" "wf_tensor means" "wf_tensor log_scales"
      "shape x = shape means" "shape means = shape log_scales"
    for x means log_scales
    using dgll_elementwise [OF that] by (simp add: tab_def)
  have wf1: "wf_tensor \<lparr>shape = [1], data = [v :: real]\<rparr>" for v
    by (simp add: wf_tensor_def numel_def)
  have one: "discretized_gaussian_log_likelihood \<lparr>shape = [1], data = [v]\<rparr>
        \<lparr>shape = [1], data = [m]\<rparr> \<lparr>shape = [1], data = [l]\<rparr> =
      Inr \<lparr>shape = [1], data = [dgll_formula v m l]\<rparr>" for v
    using gen [OF wf1 wf1 wf1, of v m l] by (simp add: numel_def upt_1)
  show ?thesis
    using gen [of x means log_scales] one [of "- 1.0"] one [of "1.0"]
    by (simp add: dgll_formula_def Let_def)
qed

theorem dgll_selects_branches_witness:
  "wf_tensor \<lparr>shape = [1], data = [0 :: real]\<rparr>
   \<and> discretized_gaussian_log_likelihood \<lparr>shape = [1], data = [0]\<rparr>
        \<lparr>shape = [1], data = [0]\<rparr> \<lparr>shape = [1], data = [0]\<rparr> =
      Inr \<lparr>shape = [1],
           data = [ln (max (cdf_formula (1 / 255) - cdf_formula (- (1 / 255))) (1 / 10 ^ 12))]\<rparr>"
proof -
  have wf: "wf_tensor \<lparr>shape = [1], data = [0 :: real]\<rparr>"
    by (simp add: wf_tensor_def numel_def)
  from dgll_selects_branches [of "\<lparr>shape = [1], data = [0]\<rparr>" "\<lparr>shape = [1], data = [0]\<rparr>"
      "\<lparr>shape = [1], data = [0]\<rparr>" 0 0] wf
  show ?thesis by (simp add: numel_def upt_1 Let_def)
qed

text \<open>
  C6: \<open>discretized_gaussian_log_likelihood\<close> fails with the assertion error whenever
  the shapes of \<open>x\<close>, \<open>means\<close> and \<open>log_scales\<close> are not all identical, also when they
  could be broadcast; when the shapes are identical it returns a tensor of the shape
  of \<open>x\<close>.
\<close>

theorem dgll_shape_precondition:
  "(\<not> (shape x = shape means \<and> shape means = shape log_scales) \<longrightarrow>
      discretized_gaussian_log_likelihood x means log_scales = Inl AssertionError)
   \<and> (wf_tensor x \<and> wf_tensor means \<and> wf_tensor log_scales
        \<and> shape x = shape means \<and> shape means = shape log_scales \<longrightarrow>
      (\<exists>r. discretized_gaussian_log_likelihood x means log_scales = Inr r
           \<and> shape r = shape x))"
proof -
  have "\<exists>r. discretized_gaussian_log_likelihood x means log_scales = Inr r \<and> shape r = shape x"
    if "wf_tensor x" "wf_tensor means" "wf_tensor log_scales"
      "shape x = shape means" "shape means = shape log_scales"
    using dgll_elementwise [OF that] by (simp add: shape_tab)
  then show ?thesis using dgll_shape_mismatch [of x means log_scales] by blast
qed

theorem dgll_shape_precondition_witness:
  "shape \<lparr>shape = [4], data = [0, 0, 0, 0 :: real]\<rparr> \<noteq> shape \<lparr>shape = [3], data = [0, 0, 0 :: real]\<rparr>
   \<and> discretized_gaussian_log_likelihood \<lparr>shape = [4], data = [0, 0, 0, 0]\<rparr>
        \<lparr>shape = [3], data = [0, 0, 0]\<rparr> \<lparr>shape = [3], data = [0, 0, 0]\<rparr> = Inl AssertionError
   \<and> discretized_gaussian_log_likelihood \<lparr>shape = [4], data = [0, 0, 0, 0]\<rparr>
        \<lparr>shape = [1], data = [0]\<rparr> \<lparr>shape = [1], data = [0]\<rparr> = Inl AssertionError
   \<and> wf_tensor \<lparr>shape = [1], data = [0 :: real]\<rparr>
   \<and> (\<exists>r. discretized_gaussian_log_likelihood \<lparr>shape = [1], data = [0]\<rparr>
          \<lparr>shape = [1], data = [0]\<rparr> \<lparr>shape = [1], data = [0]\<rparr> = Inr r \<and> shape r = [1])"
proof -
  have wf: "wf_tensor \<lparr>shape = [1], data = [0 :: real]\<rparr>"
    by (simp add: wf_tensor_def numel_def)
  from dgll_shape_precondition [of "\<lparr>shape = [4], data = [0, 0, 0, 0]\<rparr>"
      "\<lparr>shape = [3], data = [0, 0, 0]\<rparr>" "\<lparr>shape = [3], data = [0, 0, 0]\<rparr>"]
  have a: "discretized_gaussian_log_likelihood \<lparr>shape = [4], data = [0, 0, 0, 0]\<rparr>
        \<lparr>shape = [3], data = [0, 0, 0]\<rparr> \<lparr>shape = [3], data = [0, 0, 0]\<rparr> = Inl AssertionError"
    by simp
  from dgll_shape_precondition [of "\<lparr>shape = [4], data = [0, 0, 0, 0]\<rparr>"
      "\<lparr>shape = [1], data = [0]\<rparr>" "\<lparr>shape = [1], data = [0]\<rparr>"]
  have b: "discretized_gaussian_log_likelihood \<lparr>shape = [4], data = [0, 0, 0, 0]\<rparr>
        \<lparr>shape = [1], data = [0]\<rparr> \<lparr>shape = [1], data = [0]\<rparr> = Inl AssertionError"
    by simp
  from dgll_shape_precondition [of "\<lparr>shape = [1], data = [0]\<rparr>"
      "\<lparr>shape = [1], data = [0]\<rparr>" "\<lparr>shape = [1], data = [0]\<rparr>"] wf
  have c: "\<exists>r. discretized_gaussian_log_likelihood \<lparr>shape = [1], data = [0]\<rparr>
          \<lparr>shape = [1], data = [0]\<rparr> \<lparr>shape = [1], data = [0]\<rparr> = Inr r \<and> shape r = [1]"
    by simp
  from a b c wf show ?thesis by simp
qed

text \<open>
  C9, as the specification states it, fails: with the range of binary32 and the finite
  inputs \<open>x = [0]\<close>, \<open>means = [1/255]\<close> (the value of the program's own constant
  \<^verbatim>\<open>1.0 / 255.0\<close>) and \<open>log_scales = [-100]\<close>, \<open>exp 100\<close> overflows to infinity,
  \<open>x - means + 1/255\<close> is zero, their product is NaN, and the result is \<open>[NaN]\<close>: not a
  finite number. By \<open>dgll_elem_nan_general\<close> the same holds in every arithmetic with
  idempotent rounding in which \<open>exp 100\<close> overflows, at \<open>means\<close> equal to the value the
  constant \<^verbatim>\<open>1.0 / 255.0\<close> takes in the element type.
\<close>

theorem dgll_fp_nan_counterexample:
  "discretized_gaussian_log_likelihood_fp exact64 exact32 \<lparr>shape = [1], data = [Fin 0]\<rparr>
     \<lparr>shape = [1], data = [Fin (1 / 255)]\<rparr> \<lparr>shape = [1], data = [Fin (- 100)]\<rparr>
   = Inr \<lparr>shape = [1], data = [NaN]\<rparr>
   \<and> is_fin (Fin 0) \<and> is_fin (Fin (1 / 255)) \<and> is_fin (Fin (- 100)) \<and> \<not> is_fin NaN"
  by (simp only: dgll_fp_single dgll_elem_nan_plus) simp

text \<open>
  C9, amended: for well-formed floating-point tensors \<open>x\<close>, \<open>means\<close>, \<open>log_scales\<close> of
  one shape, in an element type that keeps the powers of two from \<open>2\<^sup>-\<^sup>4\<^sup>0\<close> to \<open>2\<^sup>4\<^sup>0\<close>
  (so that the floor \<^verbatim>\<open>1e-12\<close> stays positive), every element of the result of \<open>discretized_gaussian_log_likelihood\<close> is
  either NaN or a finite number that is at least \<^verbatim>\<open>th.log\<close> of the floor \<^verbatim>\<open>1e-12\<close>, so no
  element is an infinity; and the element is finite wherever \<open>exp (- log_scales)\<close>,
  \<open>x - means + 1/255\<close> and \<open>x - means - 1/255\<close> are finite.
\<close>

theorem dgll_fp_floor:
  "arith_ok py \<and> arith_ok th \<and> wf_tensor x \<and> wf_tensor means \<and> wf_tensor log_scales
     \<and> shape x = shape means \<and> shape means = shape log_scales \<longrightarrow>
   (\<exists>r. discretized_gaussian_log_likelihood_fp py th x means log_scales = Inr r
      \<and> shape r = shape x \<and> length (data r) = numel (shape x)
      \<and> (\<forall>i<numel (shape x).
           (data r ! i = NaN \<or> (\<exists>z. data r ! i = Fin z \<and> log_floor py th \<le> z))
           \<and> (is_fin (fexp th (fneg (data log_scales ! i)))
                \<and> is_fin (fadd th (fsub th (data x ! i) (data means ! i))
                             (to_elem th (one_over_255 py)))
                \<and> is_fin (fsub th (fsub th (data x ! i) (data means ! i))
                             (to_elem th (one_over_255 py)))
              \<longrightarrow> is_fin (data r ! i))))"
proof (intro impI, elim conjE)
  assume py: "arith_ok py" and th: "arith_ok th"
    and wf: "wf_tensor x" "wf_tensor means" "wf_tensor log_scales"
    and sh: "shape x = shape means" "shape means = shape log_scales"
  let ?r = "tab (shape x)
              (\<lambda>i. dgll_elem py th (data x ! i) (data means ! i) (data log_scales ! i))"
  have r: "discretized_gaussian_log_likelihood_fp py th x means log_scales = Inr ?r"
    by (rule dgll_fp_elementwise [OF wf sh])
  have el: "data ?r ! i = dgll_elem py th (data x ! i) (data means ! i) (data log_scales ! i)"
    if "i < numel (shape x)" for i
    using that by (simp add: tab_def)
  have "(data ?r ! i = NaN \<or> (\<exists>z. data ?r ! i = Fin z \<and> log_floor py th \<le> z))
           \<and> (is_fin (fexp th (fneg (data log_scales ! i)))
                \<and> is_fin (fadd th (fsub th (data x ! i) (data means ! i))
                             (to_elem th (one_over_255 py)))
                \<and> is_fin (fsub th (fsub th (data x ! i) (data means ! i))
                             (to_elem th (one_over_255 py)))
              \<longrightarrow> is_fin (data ?r ! i))"
    if i: "i < numel (shape x)" for i
    using dgll_elem_range [OF py th, of "data x ! i" "data means ! i" "data log_scales ! i"]
      dgll_elem_finite [OF py th, of "data log_scales ! i" "data x ! i" "data means ! i"]
    unfolding el [OF i] log_ok_def by blast
  moreover have "shape ?r = shape x" "length (data ?r) = numel (shape x)"
    by (simp_all add: tab_def)
  ultimately show "\<exists>r. discretized_gaussian_log_likelihood_fp py th x means log_scales = Inr r
      \<and> shape r = shape x \<and> length (data r) = numel (shape x)
      \<and> (\<forall>i<numel (shape x).
           (data r ! i = NaN \<or> (\<exists>z. data r ! i = Fin z \<and> log_floor py th \<le> z))
           \<and> (is_fin (fexp th (fneg (data log_scales ! i)))
                \<and> is_fin (fadd th (fsub th (data x ! i) (data means ! i))
                             (to_elem th (one_over_255 py)))
                \<and> is_fin (fsub th (fsub th (data x ! i) (data means ! i))
                             (to_elem th (one_over_255 py)))
              \<longrightarrow> is_fin (data r ! i)))"
    using r by blast
qed

theorem dgll_fp_floor_witness:
  "discretized_gaussian_log_likelihood_fp exact64 exact32 \<lparr>shape = [1], data = [Fin 0]\<rparr>
     \<lparr>shape = [1], data = [Fin 0]\<rparr> \<lparr>shape = [1], data = [Fin 0]\<rparr>
   = Inr \<lparr>shape = [1], data = [dgll_elem exact64 exact32 (Fin 0) (Fin 0) (Fin 0)]\<rparr>
   \<and> is_fin (dgll_elem exact64 exact32 (Fin 0) (Fin 0) (Fin 0))"
proof -
  let ?t = "\<lparr>shape = [1], data = [Fin 0]\<rparr>"
  have ev: "discretized_gaussian_log_likelihood_fp exact64 exact32 ?t ?t ?t
        = Inr \<lparr>shape = [1], data = [dgll_elem exact64 exact32 (Fin 0) (Fin 0) (Fin 0)]\<rparr>"
    by (rule dgll_fp_single)
  have h: "is_fin (fexp exact32 (fneg (Fin 0)))"
    "is_fin (fadd exact32 (fsub exact32 (Fin 0) (Fin 0)) (to_elem exact32 (one_over_255 exact64)))"
    "is_fin (fsub exact32 (fsub exact32 (Fin 0) (Fin 0)) (to_elem exact32 (one_over_255 exact64)))"
    by (simp_all add: exact32_def exact64_def one_over_255_def fsub_def fl_def)
  from dgll_fp_floor [of exact64 exact32 ?t ?t ?t] arith_ok_exact64 arith_ok_exact32
    wf_single [of "Fin 0"]
  obtain r where r: "discretized_gaussian_log_likelihood_fp exact64 exact32 ?t ?t ?t = Inr r"
    and f: "\<forall>i<numel [1]. is_fin (fexp exact32 (fneg ([Fin 0] ! i)))
                \<and> is_fin (fadd exact32 (fsub exact32 ([Fin 0] ! i) ([Fin 0] ! i))
                             (to_elem exact32 (one_over_255 exact64)))
                \<and> is_fin (fsub exact32 (fsub exact32 ([Fin 0] ! i) ([Fin 0] ! i))
                             (to_elem exact32 (one_over_255 exact64)))
              \<longrightarrow> is_fin (data r ! i)"
    by auto
  from f upt_numel_1 h have "is_fin (data r ! 0)" by auto
  moreover from r ev have "data r = [dgll_elem exact64 exact32 (Fin 0) (Fin 0) (Fin 0)]" by simp
  ultimately show ?thesis using ev by simp
qed

text \<open>
  C10, as the specification states it, fails in its second half: with the range of
  binary32 and the inputs \<open>x = [0]\<close>, \<open>means = [-1/255]\<close>, \<open>log_scales = [-100]\<close> the
  result is \<open>[NaN]\<close>, and NaN is not at most 0.
\<close>

theorem dgll_fp_not_le_0_counterexample:
  "discretized_gaussian_log_likelihood_fp exact64 exact32 \<lparr>shape = [1], data = [Fin 0]\<rparr>
     \<lparr>shape = [1], data = [Fin (- (1 / 255))]\<rparr> \<lparr>shape = [1], data = [Fin (- 100)]\<rparr>
   = Inr \<lparr>shape = [1], data = [NaN]\<rparr>
   \<and> \<not> flt NaN (Fin 0) \<and> NaN \<noteq> Fin 0"
  by (simp only: dgll_fp_single dgll_elem_nan_minus) simp

text \<open>
  C10, amended: for every element of a well-formed floating-point tensor that is not
  NaN, the result of \<open>approx_standard_normal_cdf\<close> lies in the closed interval from 0
  to 1; and every element of the result of \<open>discretized_gaussian_log_likelihood\<close> is
  at most 0 or is NaN.
\<close>

theorem cdf_fp_unit_interval:
  "arith_ok py \<and> arith_ok th \<longrightarrow>
     (wf_tensor x \<longrightarrow>
        (\<exists>r. approx_standard_normal_cdf_fp py th x = Inr r \<and> shape r = shape x
           \<and> length (data r) = numel (shape x)
           \<and> (\<forall>i<numel (shape x). data x ! i \<noteq> NaN \<longrightarrow>
                 (\<exists>u. data r ! i = Fin u \<and> 0 \<le> u \<and> u \<le> 1))))
     \<and> (wf_tensor y \<and> wf_tensor means \<and> wf_tensor log_scales
          \<and> shape y = shape means \<and> shape means = shape log_scales \<longrightarrow>
        (\<exists>r. discretized_gaussian_log_likelihood_fp py th y means log_scales = Inr r
           \<and> shape r = shape y \<and> length (data r) = numel (shape y)
           \<and> (\<forall>i<numel (shape y).
                 data r ! i = NaN \<or> (\<exists>z. data r ! i = Fin z \<and> z \<le> 0))))"
proof (intro impI conjI, goal_cases)
  case 1
  then have py: "arith_ok py" and th: "arith_ok th" and wf: "wf_tensor x" by simp_all
  let ?r = "tab (shape x) (\<lambda>i. cdf_elem py th (data x ! i))"
  have "approx_standard_normal_cdf_fp py th x = Inr ?r"
    by (rule approx_cdf_fp_elementwise [OF wf])
  moreover have "shape ?r = shape x" "length (data ?r) = numel (shape x)"
    by (simp_all add: tab_def)
  moreover have "\<forall>i<numel (shape x). data x ! i \<noteq> NaN \<longrightarrow>
                 (\<exists>u. data ?r ! i = Fin u \<and> 0 \<le> u \<and> u \<le> 1)"
    using cdf_elem_not_NaN [OF py th] by (simp add: tab_def)
  ultimately show ?case by blast
next
  case 2
  then have py: "arith_ok py" and th: "arith_ok th"
    and wf: "wf_tensor y" "wf_tensor means" "wf_tensor log_scales"
    and sh: "shape y = shape means" "shape means = shape log_scales" by simp_all
  let ?r = "tab (shape y)
              (\<lambda>i. dgll_elem py th (data y ! i) (data means ! i) (data log_scales ! i))"
  have "discretized_gaussian_log_likelihood_fp py th y means log_scales = Inr ?r"
    by (rule dgll_fp_elementwise [OF wf sh])
  moreover have "shape ?r = shape y" "length (data ?r) = numel (shape y)"
    by (simp_all add: tab_def)
  moreover have "\<forall>i<numel (shape y).
                 data ?r ! i = NaN \<or> (\<exists>z. data ?r ! i = Fin z \<and> z \<le> 0)"
    using dgll_elem_range [OF py th] by (auto simp: tab_def log_ok_def)
  ultimately show ?case by blast
qed

theorem cdf_fp_unit_interval_witness:
  "approx_standard_normal_cdf_fp exact64 exact32 \<lparr>shape = [1], data = [Fin 0]\<rparr>
     = Inr \<lparr>shape = [1], data = [cdf_elem exact64 exact32 (Fin 0)]\<rparr>
   \<and> (\<exists>u. cdf_elem exact64 exact32 (Fin 0) = Fin u \<and> 0 \<le> u \<and> u \<le> 1)
   \<and> discretized_gaussian_log_likelihood_fp exact64 exact32 \<lparr>shape = [1], data = [Fin 0]\<rparr>
        \<lparr>shape = [1], data = [Fin 0]\<rparr> \<lparr>shape = [1], data = [Fin 0]\<rparr>
      = Inr \<lparr>shape = [1], data = [dgll_elem exact64 exact32 (Fin 0) (Fin 0) (Fin 0)]\<rparr>
   \<and> (dgll_elem exact64 exact32 (Fin 0) (Fin 0) (Fin 0) = NaN
        \<or> (\<exists>z. dgll_elem exact64 exact32 (Fin 0) (Fin 0) (Fin 0) = Fin z \<and> z \<le> 0))"
proof -
  let ?t = "\<lparr>shape = [1], data = [Fin 0]\<rparr>"
  note inst = cdf_fp_unit_interval [of exact64 exact32 ?t ?t ?t ?t]
  have ev1: "approx_standard_normal_cdf_fp exact64 exact32 ?t
     = Inr \<lparr>shape = [1], data = [cdf_elem exact64 exact32 (Fin 0)]\<rparr>"
    by (rule approx_cdf_fp_single)
  have ev2: "discretized_gaussian_log_likelihood_fp exact64 exact32 ?t ?t ?t
        = Inr \<lparr>shape = [1], data = [dgll_elem exact64 exact32 (Fin 0) (Fin 0) (Fin 0)]\<rparr>"
    by (rule dgll_fp_single)
  from inst arith_ok_exact64 arith_ok_exact32 wf_single [of "Fin 0"] ev1 upt_numel_1
  have a: "\<exists>u. cdf_elem exact64 exact32 (Fin 0) = Fin u \<and> 0 \<le> u \<and> u \<le> 1"
    by auto
  from inst arith_ok_exact64 arith_ok_exact32 wf_single [of "Fin 0"] ev2 upt_numel_1
  have b: "dgll_elem exact64 exact32 (Fin 0) (Fin 0) (Fin 0) = NaN
        \<or> (\<exists>z. dgll_elem exact64 exact32 (Fin 0) (Fin 0) (Fin 0) = Fin z \<and> z \<le> 0)"
    by auto
  from ev1 ev2 a b show ?thesis by blast
qed

section \<open>Claims about \<open>continuous_gaussian_log_likelihood\<close>\<close>

lemma zeros_like_tab: "zeros_like (tab s g) = tab s (\<lambda>i. 0)"
  by (simp add: zeros_like_def tab_def map_replicate_const)

lemma ones_like_tab: "ones_like (tab s g) = tab s (\<lambda>i. 1)"
  by (simp add: ones_like_def tab_def map_replicate_const)

lemma normal_log_prob_tab:
  "normal_log_prob (tab s gloc) (tab s gscale) (tab s gv)
     = Inr (tab s (\<lambda>i. - ((gv i - gloc i) ^ 2) / (2 * (gscale i) ^ 2) - ln (gscale i)
                        - ln (sqrt (2 * pi))))"
  unfolding normal_log_prob_def Let_def
  by (simp only: tensor_map_tab tensor_binop_tab rbind_def sum.case)

lemma cgll_tab:
  "continuous_gaussian_log_likelihood (tab s gx) (tab s gm) (tab s gl)
     = Inr (tab s (\<lambda>i. - 0.5 * ((gx i - gm i) * exp (- gl i)) ^ 2 - 0.5 * ln (2 * pi)))"
proof -
  have "continuous_gaussian_log_likelihood (tab s gx) (tab s gm) (tab s gl)
     = Inr (tab s (\<lambda>i. - (((gx i - gm i) * exp (- gl i) - 0) ^ 2) / (2 * 1 ^ 2) - ln 1
                        - ln (sqrt (2 * pi))))"
    unfolding continuous_gaussian_log_likelihood_def Let_def
    by (simp only: tensor_map_tab tensor_binop_tab rbind_def sum.case zeros_like_tab
        ones_like_tab normal_log_prob_tab)
  also have "\<dots> = Inr (tab s (\<lambda>i. - 0.5 * ((gx i - gm i) * exp (- gl i)) ^ 2 - 0.5 * ln (2 * pi)))"
    by (intro arg_cong [where f = Inr] tab_cong) (simp add: ln_sqrt)
  finally show ?thesis .
qed

lemma cgll_elementwise:
  assumes "wf_tensor x" "wf_tensor means" "wf_tensor log_scales"
    and "shape x = shape means" "shape means = shape log_scales"
  shows "continuous_gaussian_log_likelihood x means log_scales
     = Inr (tab (shape x) (\<lambda>i. - 0.5 * ((data x ! i - data means ! i) * exp (- (data log_scales ! i))) ^ 2
                               - 0.5 * ln (2 * pi)))"
proof -
  have "x = tab (shape x) (\<lambda>i. data x ! i)" "means = tab (shape x) (\<lambda>i. data means ! i)"
    "log_scales = tab (shape x) (\<lambda>i. data log_scales ! i)"
    using assms tensor_as_tab [of x] tensor_as_tab [of means] tensor_as_tab [of log_scales]
    by simp_all
  then show ?thesis
    using cgll_tab [of "shape x" "\<lambda>i. data x ! i" "\<lambda>i. data means ! i" "\<lambda>i. data log_scales ! i"]
    by simp
qed

text \<open>
  C1: the specification gives \<open>-0.5 * z\<^sup>2 - 0.5 * ln (2 * pi) - log_scales\<close> for every
  element, hence \<open>- log_scales - 0.5 * ln (2 * pi)\<close> where \<open>x\<close> equals \<open>means\<close>. The code
  evaluates the density of the standard normal distribution at \<open>z\<close> and never
  subtracts \<open>log_scales\<close>: at \<open>x = means = [0]\<close> and \<open>log_scales = [1]\<close> it returns
  \<open>[-0.5 * ln (2 * pi)]\<close>, where the specification gives \<open>-1 - 0.5 * ln (2 * pi)\<close>.
\<close>

theorem cgll_omits_log_scales:
  "continuous_gaussian_log_likelihood \<lparr>shape = [1], data = [0]\<rparr> \<lparr>shape = [1], data = [0]\<rparr>
      \<lparr>shape = [1], data = [1]\<rparr> = Inr \<lparr>shape = [1], data = [- 0.5 * ln (2 * pi)]\<rparr>
   \<and> gaussian_log_density 0 0 1 = - 1 - 0.5 * ln (2 * pi)
   \<and> - 0.5 * ln (2 * pi) \<noteq> gaussian_log_density 0 0 1"
proof -
  have wf: "wf_tensor \<lparr>shape = [1], data = [v :: real]\<rparr>" for v
    by (simp add: wf_tensor_def numel_def)
  have "continuous_gaussian_log_likelihood \<lparr>shape = [1], data = [0]\<rparr> \<lparr>shape = [1], data = [0]\<rparr>
      \<lparr>shape = [1], data = [1]\<rparr> = Inr \<lparr>shape = [1], data = [- 0.5 * ln (2 * pi)]\<rparr>"
    using cgll_elementwise [OF wf wf wf, of 0 0 1] by (simp add: tab_def numel_def upt_1)
  moreover have "gaussian_log_density 0 0 1 = - 1 - 0.5 * ln (2 * pi)"
    by (simp add: gaussian_log_density_def)
  ultimately show ?thesis by simp
qed

end
